theory Spec2Isabelle
  imports Complex_Main "HOL-Library.Multiset" "HOL-Library.Log_Nat"
begin

section \<open>Cards and the deck (app/models/card.py)\<close>

datatype suit = SPADES | HEARTS | DIAMONDS | CLUBS

datatype rank = ACE | TWO | THREE | FOUR | FIVE | SIX | SEVEN | EIGHT | NINE | TEN
  | JACK | QUEEN | KING

text \<open>\<^verbatim>\<open>RANK_VALUES\<close>: the base value of a rank; the ace is listed as 11.\<close>

fun RANK_VALUES :: "rank \<Rightarrow> int" where
  "RANK_VALUES ACE = 11"
| "RANK_VALUES TWO = 2"
| "RANK_VALUES THREE = 3"
| "RANK_VALUES FOUR = 4"
| "RANK_VALUES FIVE = 5"
| "RANK_VALUES SIX = 6"
| "RANK_VALUES SEVEN = 7"
| "RANK_VALUES EIGHT = 8"
| "RANK_VALUES NINE = 9"
| "RANK_VALUES TEN = 10"
| "RANK_VALUES JACK = 10"
| "RANK_VALUES QUEEN = 10"
| "RANK_VALUES KING = 10"

text \<open>The frozen dataclass \<^verbatim>\<open>Card\<close> with its two derived properties.\<close>

datatype card = Card (suit: suit) (rank: rank)

definition "value" :: "card \<Rightarrow> int" where
  "value c = RANK_VALUES (rank c)"

definition is_ace :: "card \<Rightarrow> bool" where
  "is_ace c = (rank c = ACE)"

text \<open>
  The enum values are Python strings. The four suit symbols are not ASCII; a string is
  modelled as the list of its UTF-8 bytes, so each symbol is three characters.
\<close>

fun suit_value :: "suit \<Rightarrow> string" where
  "suit_value SPADES = [CHR 0xE2, CHR 0x99, CHR 0xA0]"
| "suit_value HEARTS = [CHR 0xE2, CHR 0x99, CHR 0xA5]"
| "suit_value DIAMONDS = [CHR 0xE2, CHR 0x99, CHR 0xA6]"
| "suit_value CLUBS = [CHR 0xE2, CHR 0x99, CHR 0xA3]"

fun rank_value :: "rank \<Rightarrow> string" where
  "rank_value ACE = ''A''"
| "rank_value TWO = ''2''"
| "rank_value THREE = ''3''"
| "rank_value FOUR = ''4''"
| "rank_value FIVE = ''5''"
| "rank_value SIX = ''6''"
| "rank_value SEVEN = ''7''"
| "rank_value EIGHT = ''8''"
| "rank_value NINE = ''9''"
| "rank_value TEN = ''10''"
| "rank_value JACK = ''J''"
| "rank_value QUEEN = ''Q''"
| "rank_value KING = ''K''"

text \<open>The members of the two enums, in declaration order (what iterating them yields).\<close>

definition all_suits :: "suit list" where
  "all_suits = [SPADES, HEARTS, DIAMONDS, CLUBS]"

definition all_ranks :: "rank list" where
  "all_ranks = [ACE, TWO, THREE, FOUR, FIVE, SIX, SEVEN, EIGHT, NINE, TEN, JACK, QUEEN, KING]"

text \<open>
  Exceptions a call can raise, and the rejection a service method returns as
  \<^verbatim>\<open>(None, message)\<close>. A result is \<open>error + 'a\<close>, with \<open>Inl\<close> the failure.
\<close>

datatype error = Rejected string | ValueError | IndexError | OverflowError

text \<open>
  \<^verbatim>\<open>Suit(s)\<close> and \<^verbatim>\<open>Rank(s)\<close> look a member up by its value and raise ValueError when
  there is none.
\<close>

definition Suit :: "string \<Rightarrow> error + suit" where
  "Suit s = (case find (\<lambda>m. suit_value m = s) all_suits of
               None \<Rightarrow> Inl ValueError | Some m \<Rightarrow> Inr m)"

definition Rank :: "string \<Rightarrow> error + rank" where
  "Rank s = (case find (\<lambda>m. rank_value m = s) all_ranks of
               None \<Rightarrow> Inl ValueError | Some m \<Rightarrow> Inr m)"

text \<open>The JSON object a card is persisted as: the keys suit, rank and value.\<close>

record card_dict =
  d_suit :: string
  d_rank :: string
  d_value :: int

definition to_dict :: "card \<Rightarrow> card_dict" where
  "to_dict c = \<lparr>d_suit = suit_value (suit c), d_rank = rank_value (rank c), d_value = value c\<rparr>"

text \<open>\<^verbatim>\<open>Card.from_dict\<close> reads the suit and the rank and ignores the stored value.\<close>

definition from_dict :: "card_dict \<Rightarrow> error + card" where
  "from_dict d = (case Suit (d_suit d) of
       Inl e \<Rightarrow> Inl e
     | Inr s \<Rightarrow> (case Rank (d_rank d) of Inl e \<Rightarrow> Inl e | Inr r \<Rightarrow> Inr (Card s r)))"

text \<open>The list comprehension \<^verbatim>\<open>[Card.from_dict(c) for c in ds]\<close>: the first failure raises.\<close>

fun from_dicts :: "card_dict list \<Rightarrow> error + card list" where
  "from_dicts [] = Inr []"
| "from_dicts (d # ds) = (case from_dict d of
       Inl e \<Rightarrow> Inl e
     | Inr c \<Rightarrow> (case from_dicts ds of Inl e \<Rightarrow> Inl e | Inr cs \<Rightarrow> Inr (c # cs)))"

text \<open>
  \<^verbatim>\<open>Deck._initialize_deck\<close> builds the 52 cards, suit by suit, and shuffles them in place.
  \<^verbatim>\<open>random.shuffle\<close> belongs to the standard library: it is the parameter \<open>shuffle\<close>, the
  permutation it applies.
\<close>

definition unshuffled :: "card list" where
  "unshuffled = concat (map (\<lambda>s. map (\<lambda>r. Card s r) all_ranks) all_suits)"

definition initialize_deck :: "(card list \<Rightarrow> card list) \<Rightarrow> card list" where
  "initialize_deck shuffle = shuffle unshuffled"

text \<open>
  \<^verbatim>\<open>Deck.draw\<close>: an empty deck is rebuilt first; then the last card is popped. Popping
  an empty list raises IndexError. The result is the card and the cards left.
\<close>

definition draw :: "(card list \<Rightarrow> card list) \<Rightarrow> card list \<Rightarrow> error + (card \<times> card list)" where
  "draw shuffle cards =
     (let cards1 = (if cards = [] then initialize_deck shuffle else cards)
      in if cards1 = [] then Inl IndexError else Inr (last cards1, butlast cards1))"

section \<open>The score calculator (app/services/game_service.py)\<close>

text \<open>The first loop of \<^verbatim>\<open>calculate\<close>: count the aces, add up the other cards.\<close>

fun tally :: "card list \<Rightarrow> int \<times> nat \<Rightarrow> int \<times> nat" where
  "tally [] (score, aces) = (score, aces)"
| "tally (c # cs) (score, aces) =
     (if is_ace c then tally cs (score, aces + 1) else tally cs (score + value c, aces))"

text \<open>The second loop: one round per ace, 11 if the running score stays within 21, else 1.\<close>

fun add_aces :: "nat \<Rightarrow> int \<Rightarrow> int" where
  "add_aces 0 score = score"
| "add_aces (Suc n) score =
     (if score + 11 \<le> 21 then add_aces n (score + 11) else add_aces n (score + 1))"

definition calculate :: "card list \<Rightarrow> int" where
  "calculate cards = (case tally cards (0, 0) of (score, aces) \<Rightarrow> add_aces aces score)"

definition is_bust :: "int \<Rightarrow> bool" where
  "is_bust score = (score > 21)"

definition is_blackjack :: "card list \<Rightarrow> bool" where
  "is_blackjack cards = (if length cards \<noteq> 2 then False else calculate cards = 21)"

text \<open>
  The best value of a hand as the specification words it: every ace counts 1 or 11;
  among the totals of all such assignments, the largest one that is at most 21, and the
  smallest total when every assignment exceeds 21.
\<close>

fun totals :: "card list \<Rightarrow> int list" where
  "totals [] = [0]"
| "totals (c # cs) =
     (if is_ace c then map (\<lambda>t. 1 + t) (totals cs) @ map (\<lambda>t. 11 + t) (totals cs)
      else map (\<lambda>t. value c + t) (totals cs))"

definition best_value :: "card list \<Rightarrow> int" where
  "best_value cards =
     (let ts = totals cards; ok = filter (\<lambda>t. t \<le> 21) ts
      in if ok \<noteq> [] then fold max ok (hd ok) else fold min ts (hd ts))"

section \<open>Python floats\<close>

text \<open>
  A Python float is an IEEE 754 double: a finite value, one of the two infinities, or
  nan. The finite doubles are the rationals \<open>k * 2 ^ e\<close> with \<open>\<bar>k\<bar> < 2 ^ 53\<close> and
  \<open>- 1074 \<le> e\<close> below \<open>2 ^ 1024\<close>. The two zeros are not told apart: no operation modelled
  here depends on the sign of a zero.
\<close>

datatype double = Finite rat | PosInf | NegInf | NaN

text \<open>Rounding to the nearest integer, a tie to the even one.\<close>

definition round_even :: "rat \<Rightarrow> int" where
  "round_even x =
     (let f = \<lfloor>x\<rfloor>; r = x - of_int f
      in if r < 1 / 2 then f else if 1 / 2 < r then f + 1 else if even f then f else f + 1)"

text \<open>
  The exponent of the spacing of the doubles around \<open>x\<close>: 53 significant bits, and
  never finer than \<open>2 ^ - 1074\<close>, the spacing of the subnormal numbers.
\<close>

definition ulp_exponent :: "rat \<Rightarrow> int" where
  "ulp_exponent x = max (bitlen \<lfloor>\<bar>x\<bar> * 2 ^ 1074\<rfloor> - 53) 0 - 1074"

text \<open>
  The multiple of that spacing nearest to \<open>x\<close>, ties to even. It is the double nearest
  to \<open>x\<close> when its magnitude is below \<open>2 ^ 1024\<close>.
\<close>

definition to_double :: "rat \<Rightarrow> rat" where
  "to_double x = of_int (round_even (x / 2 powi ulp_exponent x)) * 2 powi ulp_exponent x"

text \<open>
  The float an exact result is rounded to (round to nearest, ties to even): an infinity
  when the rounded magnitude reaches \<open>2 ^ 1024\<close>.
\<close>

definition fl :: "rat \<Rightarrow> double" where
  "fl x = (let y = to_double x
           in if 2 ^ 1024 \<le> y then PosInf else if y \<le> - (2 ^ 1024) then NegInf
              else Finite y)"

text \<open>Float addition and multiplication. Neither raises: an overflow gives an infinity.\<close>

fun float_add :: "double \<Rightarrow> double \<Rightarrow> double" where
  "float_add (Finite a) (Finite b) = fl (a + b)"
| "float_add NaN _ = NaN"
| "float_add _ NaN = NaN"
| "float_add PosInf NegInf = NaN"
| "float_add NegInf PosInf = NaN"
| "float_add PosInf _ = PosInf"
| "float_add NegInf _ = NegInf"
| "float_add _ PosInf = PosInf"
| "float_add _ NegInf = NegInf"

fun float_mul :: "double \<Rightarrow> double \<Rightarrow> double" where
  "float_mul (Finite a) (Finite b) = fl (a * b)"
| "float_mul NaN _ = NaN"
| "float_mul _ NaN = NaN"
| "float_mul (Finite a) y =
     (if a = 0 then NaN else if (a < 0) = (y = NegInf) then PosInf else NegInf)"
| "float_mul x (Finite b) =
     (if b = 0 then NaN else if (b < 0) = (x = NegInf) then PosInf else NegInf)"
| "float_mul x y = (if x = y then PosInf else NegInf)"

text \<open>
  The conversion of an int operand in mixed arithmetic: the nearest double, and
  OverflowError (\<^verbatim>\<open>int too large to convert to float\<close>) when that is out of range.
\<close>

definition float_of_int :: "int \<Rightarrow> error + double" where
  "float_of_int n =
     (case fl (of_int n) of Finite y \<Rightarrow> Inr (Finite y) | _ \<Rightarrow> Inl OverflowError)"

text \<open>
  Python's \<^verbatim>\<open>int(x)\<close> on a float: truncation towards zero; ValueError on nan and
  OverflowError on an infinity.
\<close>

definition py_int :: "rat \<Rightarrow> int" where
  "py_int x = (if 0 \<le> x then \<lfloor>x\<rfloor> else \<lceil>x\<rceil>)"

definition int_of_float :: "double \<Rightarrow> error + int" where
  "int_of_float x =
     (case x of Finite y \<Rightarrow> Inr (py_int y) | NaN \<Rightarrow> Inl ValueError | _ \<Rightarrow> Inl OverflowError)"

section \<open>Configuration (app/core/config.py)\<close>

text \<open>
  The game settings. \<^verbatim>\<open>blackjack_payout\<close> is a Python float. The field holds the
  configured value: \<open>Finite x\<close> for the number \<open>x\<close> as it is written (1.5 in the source,
  or a decimal in the environment), an infinity or nan. \<^verbatim>\<open>float_of_setting\<close> is the
  float the program then works with: the double nearest to the number written.
\<close>

record settings =
  initial_balance :: int
  min_bet :: int
  max_bet :: int
  dealer_stand_threshold :: int
  blackjack_payout :: double

definition default_settings :: settings where
  "default_settings = \<lparr>initial_balance = 100, min_bet = 1, max_bet = 1000,
     dealer_stand_threshold = 17, blackjack_payout = Finite (3 / 2)\<rparr>"

definition float_of_setting :: "double \<Rightarrow> double" where
  "float_of_setting m = (case m of Finite x \<Rightarrow> fl x | _ \<Rightarrow> m)"

text \<open>How an f-string renders an integer: decimal digits, a minus sign when negative.\<close>

function str_nat :: "nat \<Rightarrow> string" where
  "str_nat n = (if n < 10 then [char_of (48 + n)]
                else str_nat (n div 10) @ [char_of (48 + n mod 10)])"
  by pat_completeness auto
termination
  by (relation "measure (\<lambda>n. n)") auto

definition str :: "int \<Rightarrow> string" where
  "str i = (if i < 0 then CHR ''-'' # str_nat (nat (- i)) else str_nat (nat i))"

section \<open>Persisted records (app/models/database.py)\<close>

datatype GameStatus = IN_PROGRESS | PLAYER_WIN | DEALER_WIN | PUSH | PLAYER_BUST
  | DEALER_BUST | BLACKJACK

text \<open>
  The rows of the two tables. The status column holds the value of a \<^verbatim>\<open>GameStatus\<close>
  member and is modelled by the member. The timestamps the ORM maintains by itself
  (\<^verbatim>\<open>created_at\<close>, \<^verbatim>\<open>updated_at\<close>) are read by no transition and left out;
  \<^verbatim>\<open>completed_at\<close>, which the service sets, is kept.
\<close>

record player =
  p_id :: nat
  session_id :: string
  balance :: int
  total_games :: int
  total_wins :: int
  total_losses :: int
  total_pushes :: int

record game_session =
  g_id :: nat
  player_id :: nat
  bet_amount :: int
  status :: GameStatus
  player_hand :: "card_dict list"
  dealer_hand :: "card_dict list"
  deck_state :: "card_dict list"
  player_score :: int
  dealer_score :: int
  completed_at :: "nat option"
  payout :: int
  message :: string

text \<open>The database: both tables, rows in insertion order.\<close>

record db =
  players :: "player list"
  games :: "game_session list"

definition empty_db :: db where
  "empty_db = \<lparr>players = [], games = []\<rparr>"

text \<open>The integer primary key of a new row: one more than the largest in the table.\<close>

definition next_id :: "nat list \<Rightarrow> nat" where
  "next_id ids = Suc (fold max ids 0)"

text \<open>
  A query's \<^verbatim>\<open>first()\<close> is \<open>find\<close> on the table. The object it returns stays bound
  to its row: a commit writes the changed object back to the first row matching the query.
\<close>

fun replace_first :: "('a \<Rightarrow> bool) \<Rightarrow> 'a \<Rightarrow> 'a list \<Rightarrow> 'a list" where
  "replace_first P y [] = []"
| "replace_first P y (x # xs) = (if P x then y # xs else x # replace_first P y xs)"

definition get_player :: "string \<Rightarrow> db \<Rightarrow> player option" where
  "get_player sid d = find (\<lambda>p. session_id p = sid) (players d)"

definition commit_player :: "player \<Rightarrow> db \<Rightarrow> db" where
  "commit_player p d =
     d\<lparr>players := replace_first (\<lambda>q. session_id q = session_id p) p (players d)\<rparr>"

definition active :: "nat \<Rightarrow> game_session \<Rightarrow> bool" where
  "active pid g = (player_id g = pid \<and> status g = IN_PROGRESS)"

definition commit_game :: "nat \<Rightarrow> game_session \<Rightarrow> db \<Rightarrow> db" where
  "commit_game pid g d = d\<lparr>games := replace_first (active pid) g (games d)\<rparr>"

section \<open>The game service (app/services/game_service.py)\<close>

definition get_or_create_player :: "settings \<Rightarrow> string \<Rightarrow> db \<Rightarrow> player \<times> db" where
  "get_or_create_player st sid d =
     (case get_player sid d of
        Some p \<Rightarrow> (p, d)
      | None \<Rightarrow>
          (let p = \<lparr>p_id = next_id (map p_id (players d)), session_id = sid,
                    balance = initial_balance st, total_games = 0, total_wins = 0,
                    total_losses = 0, total_pushes = 0\<rparr>
           in (p, d\<lparr>players := players d @ [p]\<rparr>)))"

definition get_active_game :: "nat \<Rightarrow> db \<Rightarrow> game_session option" where
  "get_active_game pid d = find (active pid) (games d)"

text \<open>
  The deal of \<^verbatim>\<open>start_game\<close>: a new deck, two draws for the player, then two for the
  dealer. The result is the two hands and the cards left in the deck.
\<close>

definition deal :: "(card list \<Rightarrow> card list) \<Rightarrow> error + (card list \<times> card list \<times> card list)" where
  "deal shuffle =
     (case draw shuffle (initialize_deck shuffle) of Inl e \<Rightarrow> Inl e | Inr (p1, c1) \<Rightarrow>
     (case draw shuffle c1 of Inl e \<Rightarrow> Inl e | Inr (p2, c2) \<Rightarrow>
     (case draw shuffle c2 of Inl e \<Rightarrow> Inl e | Inr (d1, c3) \<Rightarrow>
     (case draw shuffle c3 of Inl e \<Rightarrow> Inl e | Inr (d2, c4) \<Rightarrow>
      Inr ([p1, p2], [d1, d2], c4)))))"

text \<open>
  The payout of a natural blackjack, \<^verbatim>\<open>int(bet * (1 + self.settings.blackjack_payout))\<close>:
  the sum and the product are float operations, \<^verbatim>\<open>1\<close> and \<^verbatim>\<open>bet\<close> being converted
  to float for them, and \<^verbatim>\<open>int\<close> truncates the product.
\<close>

definition natural_payout :: "double \<Rightarrow> int \<Rightarrow> error + int" where
  "natural_payout m bet =
     (let s = float_add (Finite 1) (float_of_setting m)
      in case float_of_int bet of
           Inl e \<Rightarrow> Inl e
         | Inr b \<Rightarrow> int_of_float (float_mul b s))"

text \<open>
  The natural-blackjack branch of \<^verbatim>\<open>start_game\<close>: the game and the player as they are
  after it, or the exception the payout computation raises.
\<close>

definition check_natural ::
  "settings \<Rightarrow> nat \<Rightarrow> int \<Rightarrow> card list \<Rightarrow> card list \<Rightarrow> game_session \<Rightarrow> player
    \<Rightarrow> error + (game_session \<times> player)" where
  "check_natural st now bet p_hand d_hand game pl =
     (if is_blackjack p_hand then
        (case (if is_blackjack d_hand then
                 Inr (game\<lparr>status := PUSH, message := ''Both have Blackjack! Push!'',
                            payout := bet\<rparr>,
                      pl\<lparr>balance := balance pl + bet, total_pushes := total_pushes pl + 1\<rparr>)
               else
                 (case natural_payout (blackjack_payout st) bet of
                    Inl e \<Rightarrow> Inl e
                  | Inr pay \<Rightarrow>
                      Inr (game\<lparr>status := BLACKJACK, message := ''Blackjack! You win!'',
                                 payout := pay\<rparr>,
                           pl\<lparr>balance := balance pl + pay,
                              total_wins := total_wins pl + 1\<rparr>)))
         of Inl e \<Rightarrow> Inl e
          | Inr (game1, pl1) \<Rightarrow>
              Inr (game1\<lparr>completed_at := Some now\<rparr>,
                   pl1\<lparr>total_games := total_games pl1 + 1\<rparr>))
      else Inr (game, pl))"

text \<open>
  The row \<^verbatim>\<open>GameSession(...)\<close> of \<^verbatim>\<open>start_game\<close> as it is inserted: the columns
  the constructor is given, the column defaults for the others.
\<close>

definition new_game :: "nat \<Rightarrow> nat \<Rightarrow> int \<Rightarrow> card list \<Rightarrow> card list \<Rightarrow> card list
    \<Rightarrow> game_session" where
  "new_game gid pid bet p_hand d_hand cards =
     \<lparr>g_id = gid, player_id = pid, bet_amount = bet, status = IN_PROGRESS,
      player_hand = map to_dict p_hand, dealer_hand = map to_dict d_hand,
      deck_state = map to_dict cards, player_score = calculate p_hand,
      dealer_score = calculate d_hand, completed_at = None, payout = 0, message = []\<rparr>"

text \<open>
  A service method returns its result and leaves the database as it committed it. The
  lazily created player is committed by \<^verbatim>\<open>get_or_create_player\<close> itself; a rejection
  or an exception afterwards commits nothing more.
\<close>

definition start_game ::
  "settings \<Rightarrow> (card list \<Rightarrow> card list) \<Rightarrow> nat \<Rightarrow> string \<Rightarrow> int \<Rightarrow> db
    \<Rightarrow> (error + game_session) \<times> db" where
  "start_game st shuffle now sid bet d0 =
     (case get_or_create_player st sid d0 of (pl, d) \<Rightarrow>
      if bet < min_bet st then
        (Inl (Rejected (''Minimum bet is $'' @ str (min_bet st))), d)
      else if bet > max_bet st then
        (Inl (Rejected (''Maximum bet is $'' @ str (max_bet st))), d)
      else if bet > balance pl then (Inl (Rejected ''Insufficient balance''), d)
      else
        (case get_active_game (p_id pl) d of
           Some active_game \<Rightarrow> (Inl (Rejected ''Game already in progress''), d)
         | None \<Rightarrow>
             (let pl1 = pl\<lparr>balance := balance pl - bet\<rparr> in
              case deal shuffle of
                Inl e \<Rightarrow> (Inl e, d)
              | Inr (p_hand, d_hand, cards) \<Rightarrow>
                  (let game = new_game (next_id (map g_id (games d))) (p_id pl1) bet
                                p_hand d_hand cards
                   in case check_natural st now bet p_hand d_hand game pl1 of
                        Inl e \<Rightarrow> (Inl e, d)
                      | Inr (game1, pl2) \<Rightarrow>
                          (Inr game1,
                           (commit_player pl2 d)\<lparr>games := games d @ [game1]\<rparr>)))))"

definition hit :: "settings \<Rightarrow> nat \<Rightarrow> string \<Rightarrow> db \<Rightarrow> (error + game_session) \<times> db" where
  "hit st now sid d0 =
     (case get_or_create_player st sid d0 of (pl, d) \<Rightarrow>
     (case get_active_game (p_id pl) d of
        None \<Rightarrow> (Inl (Rejected ''No active game''), d)
      | Some game \<Rightarrow>
          (case from_dicts (deck_state game) of
             Inl e \<Rightarrow> (Inl e, d)
           | Inr deck_cards \<Rightarrow>
               if deck_cards = [] then (Inl (Rejected ''Deck is empty''), d)
               else
                 (case from_dicts (player_hand game) of
                    Inl e \<Rightarrow> (Inl e, d)
                  | Inr p_hand0 \<Rightarrow>
                      (let new_card = last deck_cards;
                           deck_cards1 = butlast deck_cards;
                           p_hand = p_hand0 @ [new_card];
                           game1 = game\<lparr>player_hand := map to_dict p_hand,
                                         deck_state := map to_dict deck_cards1,
                                         player_score := calculate p_hand\<rparr>
                       in if is_bust (player_score game1) then
                            (let game2 = game1\<lparr>status := PLAYER_BUST,
                                                message := ''Bust! You lose!'',
                                                completed_at := Some now\<rparr>;
                                 pl1 = pl\<lparr>total_games := total_games pl + 1,
                                           total_losses := total_losses pl + 1\<rparr>
                             in (Inr game2,
                                 commit_game (p_id pl) game2 (commit_player pl1 d)))
                          else (Inr game1, commit_game (p_id pl) game1 d))))))"

text \<open>
  The dealer's loop of \<^verbatim>\<open>stand\<close>: while the score is below the threshold and the
  deck list is not empty, pop its last card onto the dealer's hand and rescore. It
  returns the hand, the deck and the score it ends with.
\<close>

function dealer_play :: "int \<Rightarrow> card list \<Rightarrow> card list \<Rightarrow> int
    \<Rightarrow> card list \<times> card list \<times> int" where
  "dealer_play threshold d_hand deck_cards d_score =
     (if d_score < threshold \<and> deck_cards \<noteq> [] then
        dealer_play threshold (d_hand @ [last deck_cards]) (butlast deck_cards)
          (calculate (d_hand @ [last deck_cards]))
      else (d_hand, deck_cards, d_score))"
  by pat_completeness auto
termination
  by (relation "measure (\<lambda>(t, h, c, s). length c)") auto

text \<open>The winner of \<^verbatim>\<open>stand\<close>: the four branches, in the order the source tests them.\<close>

definition resolve :: "int \<Rightarrow> game_session \<Rightarrow> player \<Rightarrow> game_session \<times> player" where
  "resolve p_score game pl =
     (if is_bust (dealer_score game) then
        (let game1 = game\<lparr>status := DEALER_BUST, message := ''Dealer busts! You win!'',
                          payout := bet_amount game * 2\<rparr>
         in (game1, pl\<lparr>balance := balance pl + payout game1,
                        total_wins := total_wins pl + 1\<rparr>))
      else if dealer_score game > p_score then
        (game\<lparr>status := DEALER_WIN, message := ''Dealer wins!''\<rparr>,
         pl\<lparr>total_losses := total_losses pl + 1\<rparr>)
      else if dealer_score game < p_score then
        (let game1 = game\<lparr>status := PLAYER_WIN, message := ''You win!'',
                          payout := bet_amount game * 2\<rparr>
         in (game1, pl\<lparr>balance := balance pl + payout game1,
                        total_wins := total_wins pl + 1\<rparr>))
      else
        (let game1 = game\<lparr>status := PUSH, message := ''Push!'',
                          payout := bet_amount game\<rparr>
         in (game1, pl\<lparr>balance := balance pl + payout game1,
                        total_pushes := total_pushes pl + 1\<rparr>)))"

definition stand :: "settings \<Rightarrow> nat \<Rightarrow> string \<Rightarrow> db \<Rightarrow> (error + game_session) \<times> db" where
  "stand st now sid d0 =
     (case get_or_create_player st sid d0 of (pl, d) \<Rightarrow>
     (case get_active_game (p_id pl) d of
        None \<Rightarrow> (Inl (Rejected ''No active game''), d)
      | Some game \<Rightarrow>
          (case from_dicts (player_hand game) of Inl e \<Rightarrow> (Inl e, d) | Inr p_hand \<Rightarrow>
          (case from_dicts (dealer_hand game) of Inl e \<Rightarrow> (Inl e, d) | Inr d_hand0 \<Rightarrow>
          (case from_dicts (deck_state game) of Inl e \<Rightarrow> (Inl e, d) | Inr deck_cards0 \<Rightarrow>
          (case dealer_play (dealer_stand_threshold st) d_hand0 deck_cards0
                  (calculate d_hand0) of
             (d_hand, deck_cards, d_score) \<Rightarrow>
               (let game1 = game\<lparr>dealer_hand := map to_dict d_hand,
                                 deck_state := map to_dict deck_cards,
                                 dealer_score := d_score,
                                 completed_at := Some now\<rparr>;
                    pl1 = pl\<lparr>total_games := total_games pl + 1\<rparr>
                in case resolve (player_score game1) game1 pl1 of
                     (game2, pl2) \<Rightarrow>
                       (Inr game2,
                        commit_game (p_id pl) game2 (commit_player pl2 d)))))))))"

text \<open>The client's view of a game (\<^verbatim>\<open>get_game_state\<close>), one field per key of the dict.\<close>

record game_state =
  playerHand :: "card_dict list"
  dealerHand :: "card_dict list"
  playerScore :: int
  dealerScore :: int
  view_balance :: int
  view_bet :: int
  gameOver :: bool
  view_message :: string

definition hidden_card :: card_dict where
  "hidden_card = \<lparr>d_suit = ''?'', d_rank = ''?'', d_value = 0\<rparr>"

text \<open>\<^verbatim>\<open>game.dealer_hand[0]\<close> raises IndexError on an empty hand.\<close>

definition get_game_state :: "game_session \<Rightarrow> player \<Rightarrow> error + game_state" where
  "get_game_state game pl =
     (if status game = IN_PROGRESS then
        (case dealer_hand game of
           [] \<Rightarrow> Inl IndexError
         | first # rest \<Rightarrow>
             Inr \<lparr>playerHand = player_hand game, dealerHand = [first, hidden_card],
                  playerScore = player_score game, dealerScore = d_value first,
                  view_balance = balance pl, view_bet = bet_amount game,
                  gameOver = (status game \<noteq> IN_PROGRESS), view_message = message game\<rparr>)
      else
        Inr \<lparr>playerHand = player_hand game, dealerHand = dealer_hand game,
             playerScore = player_score game, dealerScore = dealer_score game,
             view_balance = balance pl, view_bet = bet_amount game,
             gameOver = (status game \<noteq> IN_PROGRESS), view_message = message game\<rparr>)"

definition reset_player :: "settings \<Rightarrow> string \<Rightarrow> db \<Rightarrow> player \<times> db" where
  "reset_player st sid d0 =
     (case get_or_create_player st sid d0 of (pl, d) \<Rightarrow>
        (let pl1 = pl\<lparr>balance := initial_balance st\<rparr> in (pl1, commit_player pl1 d)))"

text \<open>
  The states the service can bring the database to, starting from empty tables: any
  sequence of calls, for any sessions, bets, shuffles and times.
\<close>

inductive reachable :: "settings \<Rightarrow> db \<Rightarrow> bool" for st :: settings where
  r_empty: "reachable st empty_db"
| r_player: "reachable st d \<Longrightarrow> reachable st (snd (get_or_create_player st sid d))"
| r_start: "reachable st d \<Longrightarrow> reachable st (snd (start_game st shuffle now sid bet d))"
| r_hit: "reachable st d \<Longrightarrow> reachable st (snd (hit st now sid d))"
| r_stand: "reachable st d \<Longrightarrow> reachable st (snd (stand st now sid d))"
| r_reset: "reachable st d \<Longrightarrow> reachable st (snd (reset_player st sid d))"

section \<open>Example states\<close>

text \<open>
  A player in the middle of a game: king and seven against the dealer's nine and six,
  two cards left in the persisted deck.
\<close>

definition demo_player :: player where
  "demo_player = \<lparr>p_id = 1, session_id = ''s1'', balance = 37, total_games = 9,
     total_wins = 4, total_losses = 3, total_pushes = 2\<rparr>"

definition demo_game :: game_session where
  "demo_game = \<lparr>g_id = 1, player_id = 1, bet_amount = 10, status = IN_PROGRESS,
     player_hand = map to_dict [Card SPADES KING, Card HEARTS SEVEN],
     dealer_hand = map to_dict [Card DIAMONDS NINE, Card CLUBS SIX],
     deck_state = map to_dict [Card CLUBS FIVE, Card DIAMONDS TWO],
     player_score = 17, dealer_score = 15, completed_at = None, payout = 0, message = []\<rparr>"

definition demo_db :: db where
  "demo_db = \<lparr>players = [demo_player], games = [demo_game]\<rparr>"

text \<open>The same game with nothing left in the persisted deck.\<close>

definition exhausted_db :: db where
  "exhausted_db = \<lparr>players = [demo_player], games = [demo_game\<lparr>deck_state := []\<rparr>]\<rparr>"

text \<open>The row created for a session seen for the first time, under the default settings.\<close>

definition fresh_player :: player where
  "fresh_player = \<lparr>p_id = 1, session_id = ''s1'', balance = 100, total_games = 0,
     total_wins = 0, total_losses = 0, total_pushes = 0\<rparr>"

text \<open>
  One outcome of the shuffle: the aces moved to the end of the deck, so that the player is
  dealt two aces and the next card drawn is the king of clubs.
\<close>

definition aces_last :: "card list \<Rightarrow> card list" where
  "aces_last cards = filter (\<lambda>c. \<not> is_ace c) cards @ filter is_ace cards"

section \<open>Invariants of the tables\<close>

text \<open>The counters of a player row add up.\<close>

definition counters_ok :: "player \<Rightarrow> bool" where
  "counters_ok p = (total_games p = total_wins p + total_losses p + total_pushes p)"

text \<open>No player id owns two games that are IN_PROGRESS.\<close>

definition one_active :: "db \<Rightarrow> bool" where
  "one_active d = (\<forall>pid. length (filter (active pid) (games d)) \<le> 1)"




text \<open>The stored scores of a game are the scores of its stored hands.\<close>

definition scores_ok :: "game_session \<Rightarrow> bool" where
  "scores_ok g =
     ((case from_dicts (player_hand g) of Inl e \<Rightarrow> False | Inr h \<Rightarrow> player_score g = calculate h)
      \<and> (case from_dicts (dealer_hand g) of Inl e \<Rightarrow> False | Inr h \<Rightarrow> dealer_score g = calculate h))"

text \<open>
  How a call may change the counters of the session's player: not at all, unless it
  returns a game in a terminal status; then the games played and exactly one of wins,
  losses and pushes go up by one.
\<close>

definition counters :: "player \<Rightarrow> int \<times> int \<times> int \<times> int" where
  "counters p = (total_games p, total_wins p, total_losses p, total_pushes p)"

definition counted :: "error + game_session \<Rightarrow> player \<Rightarrow> player \<Rightarrow> bool" where
  "counted r pl pl1 =
     (case r of
        Inl e \<Rightarrow> counters pl1 = counters pl
      | Inr g \<Rightarrow>
          if status g = IN_PROGRESS then counters pl1 = counters pl
          else counters pl1 = (total_games pl + 1, total_wins pl + 1, total_losses pl,
                 total_pushes pl)
            \<or> counters pl1 = (total_games pl + 1, total_wins pl, total_losses pl + 1,
                 total_pushes pl)
            \<or> counters pl1 = (total_games pl + 1, total_wins pl, total_losses pl,
                 total_pushes pl + 1))"

section \<open>Float arithmetic\<close>

text \<open>
  What is needed of the rounding: a value with at most 53 significant bits and an
  exponent in range is a double and is left as it is, and a value between \<open>2 ^ 52\<close> and
  \<open>2 ^ 53\<close> spacings is rounded to a whole number of them.
\<close>

lemma round_even_of_int: "round_even (of_int z) = z"
  by (simp add: round_even_def)

lemma bitlen_less: "0 \<le> F \<Longrightarrow> F < 2 ^ w \<Longrightarrow> bitlen F \<le> int w"
  by (simp add: bitlen_le_iff_power)

lemma bitlen_ge: "2 ^ w \<le> F \<Longrightarrow> int w < bitlen F"
  using bitlen_le_iff_power [of F w] by simp

lemma scaled_floor:
  assumes "n \<le> 1074"
  shows "\<bar>x :: rat\<bar> * 2 ^ 1074 = (\<bar>x\<bar> * 2 ^ n) * 2 ^ (1074 - n)"
proof -
  have "(2::rat) ^ 1074 = 2 ^ (n + (1074 - n))"
    using assms by simp
  then show ?thesis
    by (simp only: power_add mult.assoc)
qed

lemma ulp_exponent_range:
  assumes "\<bar>x\<bar> * 2 ^ n < 2 ^ 53" and "n \<le> 1074"
  shows "- 1074 \<le> ulp_exponent x \<and> ulp_exponent x \<le> - int n"
proof -
  have "\<bar>x\<bar> * 2 ^ 1074 < 2 ^ 53 * 2 ^ (1074 - n)"
    unfolding scaled_floor [OF assms(2)] using assms(1) by simp
  then have "\<bar>x\<bar> * 2 ^ 1074 < of_int (2 ^ (53 + (1074 - n)))"
    by (simp add: power_add)
  then have "\<lfloor>\<bar>x\<bar> * 2 ^ 1074\<rfloor> < 2 ^ (53 + (1074 - n))"
    by (simp only: floor_less_iff)
  moreover have "0 \<le> \<lfloor>\<bar>x\<bar> * 2 ^ 1074\<rfloor>"
    by simp
  ultimately have "bitlen \<lfloor>\<bar>x\<bar> * 2 ^ 1074\<rfloor> \<le> int (53 + (1074 - n))"
    by (rule bitlen_less [rotated])
  then show ?thesis
    using assms(2) by (simp add: ulp_exponent_def)
qed

lemma ulp_exponent_normal:
  assumes "2 ^ 52 \<le> \<bar>x\<bar> * 2 ^ n" and "\<bar>x\<bar> * 2 ^ n < 2 ^ 53" and "n \<le> 1074"
  shows "ulp_exponent x = - int n"
proof -
  have "2 ^ 52 * 2 ^ (1074 - n) \<le> \<bar>x\<bar> * 2 ^ 1074"
    unfolding scaled_floor [OF assms(3)] using assms(1) by simp
  then have "of_int (2 ^ (52 + (1074 - n))) \<le> \<bar>x\<bar> * 2 ^ 1074"
    by (simp add: power_add)
  then have "2 ^ (52 + (1074 - n)) \<le> \<lfloor>\<bar>x\<bar> * 2 ^ 1074\<rfloor>"
    by (simp only: le_floor_iff)
  then have "int (52 + (1074 - n)) < bitlen \<lfloor>\<bar>x\<bar> * 2 ^ 1074\<rfloor>"
    by (rule bitlen_ge)
  then show ?thesis
    using ulp_exponent_range [OF assms(2,3)] assms(3) by (simp add: ulp_exponent_def)
qed

lemma to_double_normal:
  assumes "2 ^ 52 \<le> \<bar>x\<bar> * 2 ^ n" and "\<bar>x\<bar> * 2 ^ n < 2 ^ 53" and "n \<le> 1074"
  shows "to_double x = of_int (round_even (x * 2 ^ n)) / 2 ^ n"
  by (simp add: to_double_def ulp_exponent_normal [OF assms] power_int_minus field_simps)

lemma to_double_exact:
  assumes "\<bar>k\<bar> < 2 ^ 53" and "j \<le> 1074"
  shows "to_double (of_int k / 2 ^ j) = of_int k / 2 ^ j"
proof -
  have "\<bar>of_int k / 2 ^ j :: rat\<bar> * 2 ^ j = of_int \<bar>k\<bar>"
    by (simp add: abs_divide)
  also have "\<dots> < 2 ^ 53"
    using assms(1) by (metis of_int_less_iff of_int_numeral of_int_power)
  finally have "- 1074 \<le> ulp_exponent (of_int k / 2 ^ j)
      \<and> ulp_exponent (of_int k / 2 ^ j) \<le> - int j"
    using assms(2) by (rule ulp_exponent_range)
  then have "ulp_exponent (of_int k / 2 ^ j)
      = - int (j + (nat (- ulp_exponent (of_int k / 2 ^ j)) - j))"
    by linarith
  then obtain d where m: "ulp_exponent (of_int k / 2 ^ j) = - int (j + d)"
    by blast
  have pw: "(2 :: rat) powi (- int (j + d)) = inverse (2 ^ j * 2 ^ d)"
    by (simp only: power_int_minus power_int_of_nat power_add)
  have "(of_int k / 2 ^ j :: rat) / 2 powi (- int (j + d)) = of_int (k * 2 ^ d)"
    unfolding pw by (simp add: field_simps)
  then have "to_double (of_int k / 2 ^ j) = of_int (k * 2 ^ d) * 2 powi (- int (j + d))"
    by (simp only: to_double_def m round_even_of_int)
  also have "\<dots> = of_int k / 2 ^ j"
    unfolding pw by (simp add: field_simps)
  finally show ?thesis .
qed

lemma round_even_nearest:
  assumes "of_int z - 1 / 2 < x" and "x < of_int z + 1 / 2"
  shows "round_even x = z"
proof -
  have "\<lfloor>x\<rfloor> = z \<or> \<lfloor>x\<rfloor> = z - 1"
    using assms by (simp add: floor_eq_iff) linarith
  then show ?thesis
  proof
    assume f: "\<lfloor>x\<rfloor> = z"
    then have "x - of_int z < 1 / 2" using assms by simp
    then show ?thesis by (simp add: round_even_def Let_def f)
  next
    assume f: "\<lfloor>x\<rfloor> = z - 1"
    then have "1 / 2 < x - of_int (z - 1)" using assms by simp
    then show ?thesis by (simp add: round_even_def Let_def f)
  qed
qed

lemma round_even_tie: "even z \<Longrightarrow> round_even (of_int z + 1 / 2) = z"
proof -
  assume "even z"
  have "\<lfloor>of_int z + 1 / 2 :: rat\<rfloor> = z"
    by (simp add: floor_eq_iff)
  with \<open>even z\<close> show ?thesis
    by (simp add: round_even_def Let_def)
qed

lemma to_double_two_fifths: "to_double (2 / 5) = 7205759403792794 / 2 ^ 54"
proof -
  have "round_even (2 / 5 * 2 ^ 54) = 7205759403792794"
    by (rule round_even_nearest) simp_all
  then show ?thesis
    by (subst to_double_normal [where n = 54]) simp_all
qed

lemma to_double_one_plus: "to_double (1 + 7205759403792794 / 2 ^ 54) = 6305039478318694 / 2 ^ 52"
proof -
  have "round_even (of_int 6305039478318694 + 1 / 2) = 6305039478318694"
    by (rule round_even_tie) simp
  moreover have "((1 + 7205759403792794 / 2 ^ 54) * 2 ^ 52 :: rat) = of_int 6305039478318694 + 1 / 2"
    by simp
  ultimately have "round_even ((1 + 7205759403792794 / 2 ^ 54) * 2 ^ 52) = 6305039478318694"
    by (simp only:)
  then show ?thesis
    by (subst to_double_normal [where n = 52]) simp_all
qed

lemma to_double_product: "to_double (45 * (6305039478318694 / 2 ^ 52)) = 8866461766385663 / 2 ^ 47"
proof -
  have "round_even (45 * (6305039478318694 / 2 ^ 52) * 2 ^ 47) = 8866461766385663"
    by (rule round_even_nearest) simp_all
  then show ?thesis
    by (subst to_double_normal [where n = 47]) simp_all
qed

lemma fl_finite: "to_double x = y \<Longrightarrow> \<bar>y\<bar> < 2 ^ 1024 \<Longrightarrow> fl x = Finite y"
  unfolding fl_def Let_def by (auto simp: abs_less_iff)

lemma fl_exact:
  assumes "\<bar>k\<bar> < 2 ^ 53" and "j \<le> 1074"
  shows "fl (of_int k / 2 ^ j) = Finite (of_int k / 2 ^ j)"
proof (rule fl_finite [OF to_double_exact [OF assms]])
  have "\<bar>of_int k :: rat\<bar> * 1 \<le> \<bar>of_int k\<bar> * 2 ^ j"
    by (intro mult_left_mono) simp_all
  then have "\<bar>of_int k / 2 ^ j :: rat\<bar> \<le> \<bar>of_int k\<bar>"
    by (simp add: abs_divide divide_le_eq)
  also have "\<dots> = of_int \<bar>k\<bar>" by simp
  also have "\<dots> < 2 ^ 53"
    using assms(1) by (metis of_int_less_iff of_int_numeral of_int_power)
  also have "(2 :: rat) ^ 53 < 2 ^ 1024" by simp
  finally show "\<bar>of_int k / 2 ^ j :: rat\<bar> < 2 ^ 1024" .
qed

lemma py_int_half: "0 \<le> k \<Longrightarrow> py_int (of_int k / 2) = k div 2"
proof -
  assume "0 \<le> k"
  have "\<lfloor>of_int k / of_int 2 :: rat\<rfloor> = k div 2"
    by (simp only: floor_divide_of_int_eq)
  with \<open>0 \<le> k\<close> show ?thesis
    by (simp add: py_int_def)
qed

lemma natural_payout_default:
  assumes "0 \<le> bet" and "bet < 2 ^ 50"
  shows "natural_payout (Finite (3 / 2)) bet = Inr (5 * bet div 2)"
proof -
  have "fl (of_int 3 / 2 ^ 1) = Finite (of_int 3 / 2 ^ 1)"
    by (rule fl_exact) simp_all
  then have a: "fl (3 / 2) = Finite (3 / 2)" by simp
  have "fl (of_int 5 / 2 ^ 1) = Finite (of_int 5 / 2 ^ 1)"
    by (rule fl_exact) simp_all
  then have b: "fl (1 + 3 / 2) = Finite (5 / 2)" by simp
  have "fl (of_int bet / 2 ^ 0) = Finite (of_int bet / 2 ^ 0)"
    using assms by (intro fl_exact) simp_all
  then have c: "fl (of_int bet) = Finite (of_int bet)" by simp
  have eq: "(of_int bet * (5 / 2) :: rat) = of_int (5 * bet) / 2 ^ 1"
    by simp
  have "fl (of_int (5 * bet) / 2 ^ 1) = Finite (of_int (5 * bet) / 2 ^ 1)"
    using assms by (intro fl_exact) simp_all
  then have d: "fl (of_int bet * (5 / 2)) = Finite (of_int (5 * bet) / 2)"
    by (simp only: eq power_one_right)
  have e: "py_int (of_int (5 * bet) / 2) = 5 * bet div 2"
    using assms(1) by (intro py_int_half) simp
  show ?thesis
    by (simp only: natural_payout_def Let_def float_of_setting_def double.case
        float_add.simps float_mul.simps float_of_int_def int_of_float_def sum.case a b c d e)
qed

lemma natural_payout_two_fifths: "natural_payout (Finite (2 / 5)) 45 = Inr 62"
proof -
  have a: "fl (2 / 5) = Finite (7205759403792794 / 2 ^ 54)"
    by (rule fl_finite [OF to_double_two_fifths]) simp
  have b: "fl (1 + 7205759403792794 / 2 ^ 54) = Finite (6305039478318694 / 2 ^ 52)"
    by (rule fl_finite [OF to_double_one_plus]) simp
  have "fl (of_int 45 / 2 ^ 0) = Finite (of_int 45 / 2 ^ 0)"
    by (rule fl_exact) simp_all
  then have c: "fl (of_int 45) = Finite 45" by simp
  have d: "fl (45 * (6305039478318694 / 2 ^ 52)) = Finite (8866461766385663 / 2 ^ 47)"
    by (rule fl_finite [OF to_double_product]) simp
  have e: "py_int (8866461766385663 / 2 ^ 47) = 62"
    by (simp add: py_int_def floor_eq_iff)
  show ?thesis
    by (simp only: natural_payout_def Let_def float_of_setting_def double.case
        float_add.simps float_mul.simps float_of_int_def int_of_float_def sum.case a b c d e)
qed

section \<open>Queries and commits on a table\<close>

lemma find_None_filter: "find P xs = None \<longleftrightarrow> filter P xs = []"
  by (induction xs) auto

lemma find_Some_filter: "find P xs = Some x \<Longrightarrow> \<exists>r. filter P xs = x # r"
  by (induction xs) (auto split: if_splits)

lemma find_Some_holds: "find P xs = Some x \<Longrightarrow> P x \<and> x \<in> set xs"
  by (induction xs) (auto split: if_splits)

lemma find_append_new: "find P xs = None \<Longrightarrow> P y \<Longrightarrow> find P (xs @ [y]) = Some y"
  by (induction xs) (auto split: if_splits)

lemma replace_first_None: "find P xs = None \<Longrightarrow> replace_first P y xs = xs"
  by (induction xs) (auto split: if_splits)

lemma length_replace_first: "length (replace_first P y xs) = length xs"
  by (induction xs) auto

lemma find_replace_first:
  "P y \<Longrightarrow> find P xs = Some x \<Longrightarrow> find P (replace_first P y xs) = Some y"
  by (induction xs) (auto split: if_splits)

lemma filter_replace_first:
  "filter P xs = x # r \<Longrightarrow> filter P (replace_first P y xs) = (if P y then y # r else r)"
  by (induction xs) (auto split: if_splits)

lemma set_replace_first: "set (replace_first P y xs) \<subseteq> insert y (set xs)"
  by (induction xs) auto

section \<open>The card codec\<close>

lemma Suit_suit_value: "Suit (suit_value s) = Inr s"
  by (cases s) (simp_all add: Suit_def all_suits_def)

lemma Rank_rank_value: "Rank (rank_value r) = Inr r"
  by (cases r) (simp_all add: Rank_def all_ranks_def)

lemma from_dict_to_dict: "from_dict (to_dict c) = Inr c"
  by (simp add: from_dict_def to_dict_def Suit_suit_value Rank_rank_value)

lemma from_dicts_to_dict: "from_dicts (map to_dict cs) = Inr cs"
  by (induction cs) (simp_all add: from_dict_to_dict)

section \<open>Players\<close>

lemma get_or_create_existing:
  "get_player sid d = Some q \<Longrightarrow> get_or_create_player st sid d = (q, d)"
  by (simp add: get_or_create_player_def)

lemma get_or_create_player_found:
  "get_or_create_player st sid d = (pl, d1) \<Longrightarrow>
     get_player sid d1 = Some pl \<and> session_id pl = sid \<and> games d1 = games d"
  by (auto simp: get_or_create_player_def get_player_def Let_def find_append_new
      dest: find_Some_holds split: option.splits)

lemma get_player_commit:
  "get_player sid d = Some q \<Longrightarrow> session_id p = sid \<Longrightarrow>
     get_player sid (commit_player p d) = Some p"
  by (simp add: get_player_def commit_player_def find_replace_first)

lemma games_commit_player: "games (commit_player p d) = games d"
  by (simp add: commit_player_def)

lemma players_commit_game: "players (commit_game pid g d) = players d"
  by (simp add: commit_game_def)

lemma get_active_game_commit_player:
  "get_active_game pid (commit_player p d) = get_active_game pid d"
  by (simp add: get_active_game_def commit_player_def)

lemma get_player_demo_db: "get_player ''s1'' demo_db = Some demo_player"
  by (simp add: get_player_def demo_db_def demo_player_def)

lemma get_active_game_demo_db: "get_active_game (p_id demo_player) demo_db = Some demo_game"
  by (simp add: get_active_game_def active_def demo_db_def demo_player_def demo_game_def)

lemma get_player_exhausted_db: "get_player ''s1'' exhausted_db = Some demo_player"
  by (simp add: get_player_def exhausted_db_def demo_player_def)

lemma get_active_game_exhausted_db:
  "get_active_game (p_id demo_player) exhausted_db = Some (demo_game\<lparr>deck_state := []\<rparr>)"
  by (simp add: get_active_game_def active_def exhausted_db_def demo_player_def demo_game_def)

section \<open>Scoring\<close>

lemma mset_aces_last: "mset (aces_last cards) = mset cards"
  unfolding aces_last_def by (induction cards) auto

text \<open>
  C1. The calculator does not always return the best value of a hand. With two aces and a
  king the first ace is taken as 11 (10 + 11 = 21) and the second can then only add 1:
  the result is 22, a bust, while counting both aces as 1 gives 12. In play: a player
  dealt two aces (scored 12) who hits and draws the king is declared bust.
\<close>

theorem calculate_two_aces_king:
  "calculate [Card CLUBS ACE, Card DIAMONDS ACE, Card CLUBS KING] = 22
   \<and> best_value [Card CLUBS ACE, Card DIAMONDS ACE, Card CLUBS KING] = 12
   \<and> is_bust (calculate [Card CLUBS ACE, Card DIAMONDS ACE, Card CLUBS KING])
   \<and> map_sum id status (fst (start_game default_settings aces_last 1 ''s1'' 10 empty_db))
       = Inr IN_PROGRESS
   \<and> map_sum id player_hand
        (fst (hit default_settings 2 ''s1''
           (snd (start_game default_settings aces_last 1 ''s1'' 10 empty_db))))
       = Inr (map to_dict [Card CLUBS ACE, Card DIAMONDS ACE, Card CLUBS KING])
   \<and> map_sum id player_score
        (fst (hit default_settings 2 ''s1''
           (snd (start_game default_settings aces_last 1 ''s1'' 10 empty_db)))) = Inr 22
   \<and> map_sum id status
        (fst (hit default_settings 2 ''s1''
           (snd (start_game default_settings aces_last 1 ''s1'' 10 empty_db))))
       = Inr PLAYER_BUST"
proof -
  have a: "calculate [Card CLUBS ACE, Card DIAMONDS ACE, Card CLUBS KING] = 22"
    by (simp add: calculate_def is_ace_def value_def)
  have b: "best_value [Card CLUBS ACE, Card DIAMONDS ACE, Card CLUBS KING] = 12"
    by (simp add: best_value_def is_ace_def value_def)
  have c: "map_sum id status (fst (start_game default_settings aces_last 1 ''s1'' 10 empty_db))
       = Inr IN_PROGRESS"
    by code_simp
  have d: "map_sum id player_hand
        (fst (hit default_settings 2 ''s1''
           (snd (start_game default_settings aces_last 1 ''s1'' 10 empty_db))))
       = Inr (map to_dict [Card CLUBS ACE, Card DIAMONDS ACE, Card CLUBS KING])"
    by code_simp
  have e: "map_sum id player_score
        (fst (hit default_settings 2 ''s1''
           (snd (start_game default_settings aces_last 1 ''s1'' 10 empty_db)))) = Inr 22"
    by code_simp
  have f: "map_sum id status
        (fst (hit default_settings 2 ''s1''
           (snd (start_game default_settings aces_last 1 ''s1'' 10 empty_db))))
       = Inr PLAYER_BUST"
    by code_simp
  show ?thesis
    using a b c d e f by (simp add: is_bust_def)
qed

section \<open>Resetting the balance\<close>

text \<open>
  C9. Whatever the balance of a player was, \<^verbatim>\<open>reset_player\<close> stores the configured
  initial balance for that player and changes nothing else of the row: games played,
  wins, losses and pushes are what they were. No game is touched.
\<close>

theorem reset_player_keeps_totals:
  assumes "get_player sid d = Some q" and "reset_player st sid d = (p, d')"
  shows "get_player sid d' = Some p \<and> balance p = initial_balance st
    \<and> total_games p = total_games q \<and> total_wins p = total_wins q
    \<and> total_losses p = total_losses q \<and> total_pushes p = total_pushes q
    \<and> p = q\<lparr>balance := initial_balance st\<rparr> \<and> games d' = games d"
proof -
  have sq: "session_id q = sid"
    using assms(1) find_Some_holds [of "\<lambda>p. session_id p = sid" "players d" q]
    by (simp add: get_player_def)
  have p: "p = q\<lparr>balance := initial_balance st\<rparr>"
    and d': "d' = commit_player (q\<lparr>balance := initial_balance st\<rparr>) d"
    using assms by (auto simp add: reset_player_def get_or_create_existing Let_def)
  have "get_player sid d' = Some p"
    unfolding d' p using assms(1) sq by (simp add: get_player_commit)
  then show ?thesis
    by (simp add: p d' games_commit_player)
qed

theorem reset_player_keeps_totals_witness:
  "get_player ''s1'' demo_db = Some demo_player
   \<and> balance demo_player = 37
   \<and> fst (reset_player default_settings ''s1'' demo_db) =
       \<lparr>p_id = 1, session_id = ''s1'', balance = 100, total_games = 9,
        total_wins = 4, total_losses = 3, total_pushes = 2\<rparr>
   \<and> get_player ''s1'' (snd (reset_player default_settings ''s1'' demo_db))
       = Some (fst (reset_player default_settings ''s1'' demo_db))"
  using get_player_demo_db
    reset_player_keeps_totals [OF get_player_demo_db, of default_settings
      "fst (reset_player default_settings ''s1'' demo_db)"
      "snd (reset_player default_settings ''s1'' demo_db)"]
  by (simp add: demo_player_def default_settings_def)

section \<open>Rejected starts\<close>

lemma start_game_failure_keeps_db:
  "fst (start_game st shuffle now sid bet d) = Inl e \<Longrightarrow>
     snd (start_game st shuffle now sid bet d) = snd (get_or_create_player st sid d)"
  by (auto simp: start_game_def Let_def split: prod.splits if_splits option.splits sum.splits)

lemma get_or_create_player_cases:
  "get_or_create_player st sid d = (pl, d1) \<Longrightarrow>
     (get_player sid d = Some pl \<and> d1 = d)
     \<or> (get_player sid d = None \<and> players d1 = players d @ [pl]
          \<and> balance pl = initial_balance st \<and> total_games pl = 0 \<and> total_wins pl = 0
          \<and> total_losses pl = 0 \<and> total_pushes pl = 0)"
  by (auto simp: get_or_create_player_def Let_def split: option.splits)

lemma start_game_rejection:
  assumes "get_or_create_player st sid d = (pl, d1)"
    and "bet < min_bet st \<or> bet > max_bet st \<or> bet > balance pl
           \<or> get_active_game (p_id pl) d \<noteq> None"
  shows "start_game st shuffle now sid bet d =
            (Inl (Rejected
               (if bet < min_bet st then ''Minimum bet is $'' @ str (min_bet st)
                else if bet > max_bet st then ''Maximum bet is $'' @ str (max_bet st)
                else if bet > balance pl then ''Insufficient balance''
                else ''Game already in progress'')), d1)"
proof -
  have "games d1 = games d"
    using get_or_create_player_found [OF assms(1)] by simp
  then have "get_active_game (p_id pl) d1 = get_active_game (p_id pl) d"
    by (simp add: get_active_game_def)
  then show ?thesis
    using assms by (auto simp: start_game_def)
qed

text \<open>
  C6. Let \<open>pl\<close> be the player of the session (the stored row, or the row created for a
  session seen for the first time). When the bet is below the minimum, above the
  maximum, above the player's balance, or the player has a game IN_PROGRESS,
  \<^verbatim>\<open>start_game\<close> returns a rejection whose message names the first check that failed.
  Every call that fails leaves the tables as they were: no game is added or changed and
  the stored player row is untouched (for a new session the row just created, with the
  initial balance and all counters 0, is all there is).
\<close>

theorem start_game_rejects:
  assumes "get_or_create_player st sid d = (pl, d1)"
  shows "(bet < min_bet st \<or> bet > max_bet st \<or> bet > balance pl
            \<or> get_active_game (p_id pl) d \<noteq> None \<longrightarrow>
          start_game st shuffle now sid bet d =
            (Inl (Rejected
               (if bet < min_bet st then ''Minimum bet is $'' @ str (min_bet st)
                else if bet > max_bet st then ''Maximum bet is $'' @ str (max_bet st)
                else if bet > balance pl then ''Insufficient balance''
                else ''Game already in progress'')), d1))
    \<and> (\<forall>e. fst (start_game st shuffle now sid bet d) = Inl e \<longrightarrow>
          snd (start_game st shuffle now sid bet d) = d1)
    \<and> games d1 = games d \<and> get_player sid d1 = Some pl
    \<and> (get_player sid d = Some pl \<and> d1 = d
        \<or> get_player sid d = None \<and> players d1 = players d @ [pl]
           \<and> balance pl = initial_balance st \<and> total_games pl = 0 \<and> total_wins pl = 0
           \<and> total_losses pl = 0 \<and> total_pushes pl = 0)"
proof -
  have found: "games d1 = games d \<and> get_player sid d1 = Some pl"
    using get_or_create_player_found [OF assms] by simp
  have "bet < min_bet st \<or> bet > max_bet st \<or> bet > balance pl
            \<or> get_active_game (p_id pl) d \<noteq> None \<longrightarrow>
          start_game st shuffle now sid bet d =
            (Inl (Rejected
               (if bet < min_bet st then ''Minimum bet is $'' @ str (min_bet st)
                else if bet > max_bet st then ''Maximum bet is $'' @ str (max_bet st)
                else if bet > balance pl then ''Insufficient balance''
                else ''Game already in progress'')), d1)"
    using start_game_rejection [OF assms] by blast
  moreover have "\<forall>e. fst (start_game st shuffle now sid bet d) = Inl e \<longrightarrow>
          snd (start_game st shuffle now sid bet d) = d1"
    using start_game_failure_keeps_db [of st shuffle now sid bet d] assms by simp
  ultimately show ?thesis
    using found get_or_create_player_cases [OF assms] by blast
qed

text \<open>
  The example player has a balance of 37 and a game in progress. A bet of 0, of 1001 and
  of 50 are each refused for the bet; a bet of 10 is refused for the open game.
\<close>

theorem start_game_rejects_witness:
  "get_or_create_player default_settings ''s1'' demo_db = (demo_player, demo_db)
   \<and> start_game default_settings rev 3 ''s1'' 0 demo_db
       = (Inl (Rejected ''Minimum bet is $1''), demo_db)
   \<and> start_game default_settings rev 3 ''s1'' 1001 demo_db
       = (Inl (Rejected ''Maximum bet is $1000''), demo_db)
   \<and> start_game default_settings rev 3 ''s1'' 50 demo_db
       = (Inl (Rejected ''Insufficient balance''), demo_db)
   \<and> get_active_game (p_id demo_player) demo_db = Some demo_game
   \<and> start_game default_settings rev 3 ''s1'' 10 demo_db
       = (Inl (Rejected ''Game already in progress''), demo_db)"
proof -
  have h: "get_or_create_player default_settings ''s1'' demo_db = (demo_player, demo_db)"
    by (simp add: get_or_create_existing get_player_demo_db)
  have str: "str 1 = ''1''" "str 1000 = ''1000''"
    by code_simp+
  show ?thesis
    using h get_active_game_demo_db
      start_game_rejects [OF h, of 0 rev 3] start_game_rejects [OF h, of 1001 rev 3]
      start_game_rejects [OF h, of 50 rev 3] start_game_rejects [OF h, of 10 rev 3]
    by (simp add: default_settings_def demo_player_def str)
qed

section \<open>Drawing from the persisted deck\<close>

text \<open>
  C2. \<^verbatim>\<open>hit\<close> never refills the deck: it reads the persisted deck of the active game,
  and when that list is empty it returns the rejection "Deck is empty" and changes
  nothing. When the list is not empty the call succeeds: the last card of the deck goes
  to the end of the player's hand, the deck loses it, and the player's score is
  recomputed.
\<close>

theorem hit_draws_or_rejects:
  assumes "get_player sid d = Some pl" and "get_active_game (p_id pl) d = Some g"
    and "from_dicts (deck_state g) = Inr deck_cards"
    and "from_dicts (player_hand g) = Inr p_hand"
  shows "(deck_cards = [] \<longrightarrow> hit st now sid d = (Inl (Rejected ''Deck is empty''), d))
    \<and> (deck_cards \<noteq> [] \<longrightarrow>
         (\<exists>g'. fst (hit st now sid d) = Inr g'
            \<and> player_hand g' = map to_dict (p_hand @ [last deck_cards])
            \<and> deck_state g' = map to_dict (butlast deck_cards)
            \<and> player_score g' = calculate (p_hand @ [last deck_cards])))"
  using assms
  by (simp add: hit_def get_or_create_existing Let_def)

theorem hit_draws_or_rejects_witness:
  "get_player ''s1'' demo_db = Some demo_player
   \<and> get_active_game (p_id demo_player) demo_db = Some demo_game
   \<and> from_dicts (deck_state demo_game) = Inr [Card CLUBS FIVE, Card DIAMONDS TWO]
   \<and> from_dicts (player_hand demo_game) = Inr [Card SPADES KING, Card HEARTS SEVEN]
   \<and> map_sum id player_hand (fst (hit default_settings 4 ''s1'' demo_db))
       = Inr (map to_dict [Card SPADES KING, Card HEARTS SEVEN, Card DIAMONDS TWO])
   \<and> map_sum id deck_state (fst (hit default_settings 4 ''s1'' demo_db))
       = Inr (map to_dict [Card CLUBS FIVE])
   \<and> map_sum id player_score (fst (hit default_settings 4 ''s1'' demo_db)) = Inr 19
   \<and> get_active_game (p_id demo_player) exhausted_db = Some (demo_game\<lparr>deck_state := []\<rparr>)
   \<and> hit default_settings 4 ''s1'' exhausted_db = (Inl (Rejected ''Deck is empty''), exhausted_db)"
proof -
  have deck: "from_dicts (deck_state demo_game) = Inr [Card CLUBS FIVE, Card DIAMONDS TWO]"
    and hand: "from_dicts (player_hand demo_game) = Inr [Card SPADES KING, Card HEARTS SEVEN]"
    using from_dicts_to_dict [of "[Card CLUBS FIVE, Card DIAMONDS TWO]"]
      from_dicts_to_dict [of "[Card SPADES KING, Card HEARTS SEVEN]"]
    by (simp_all add: demo_game_def)
  have none: "from_dicts (deck_state (demo_game\<lparr>deck_state := []\<rparr>)) = Inr []"
    and hand': "from_dicts (player_hand (demo_game\<lparr>deck_state := []\<rparr>))
        = Inr [Card SPADES KING, Card HEARTS SEVEN]"
    using from_dicts_to_dict [of "[Card SPADES KING, Card HEARTS SEVEN]"]
    by (simp_all add: demo_game_def)
  have score: "calculate [Card SPADES KING, Card HEARTS SEVEN, Card DIAMONDS TWO] = 19"
    by (simp add: calculate_def is_ace_def value_def)
  show ?thesis
    using hit_draws_or_rejects [OF get_player_demo_db get_active_game_demo_db deck hand,
        of default_settings 4]
      hit_draws_or_rejects [OF get_player_exhausted_db get_active_game_exhausted_db none hand',
        of default_settings 4]
      get_player_demo_db get_active_game_demo_db get_active_game_exhausted_db deck hand score
    by auto
qed

text \<open>
  On the exhausted deck there is no refill and no draw: the call is rejected.
\<close>

theorem hit_empty_deck_rejected:
  "get_active_game (p_id demo_player) exhausted_db = Some (demo_game\<lparr>deck_state := []\<rparr>)
   \<and> status (demo_game\<lparr>deck_state := []\<rparr>) = IN_PROGRESS
   \<and> deck_state (demo_game\<lparr>deck_state := []\<rparr>) = []
   \<and> hit default_settings 4 ''s1'' exhausted_db
       = (Inl (Rejected ''Deck is empty''), exhausted_db)"
  by (simp add: hit_def get_or_create_existing get_player_exhausted_db
      get_active_game_exhausted_db demo_game_def)

section \<open>The dealer's turn\<close>

declare dealer_play.simps [simp del]

lemma dealer_play_result:
  "dealer_play t h c s = (h', c', s') \<Longrightarrow> s = calculate h \<Longrightarrow>
     \<exists>drawn. h' = h @ drawn \<and> c = c' @ rev drawn \<and> s' = calculate h'
       \<and> (t \<le> s' \<or> c' = [])
       \<and> (\<forall>j<length drawn. calculate (h @ take j drawn) < t)"
proof (induction t h c s arbitrary: h' c' s' rule: dealer_play.induct)
  case (1 t h c s)
  show ?case
  proof (cases "s < t \<and> c \<noteq> []")
    case False
    with "1.prems"(1) have "h' = h \<and> c' = c \<and> s' = s"
      by (subst (asm) dealer_play.simps) auto
    with False "1.prems"(2) show ?thesis by auto
  next
    case True
    with "1.prems"(1) have run: "dealer_play t (h @ [last c]) (butlast c)
        (calculate (h @ [last c])) = (h', c', s')"
      by (subst (asm) dealer_play.simps) auto
    from "1.IH" [OF True run refl] obtain drawn where d:
      "h' = (h @ [last c]) @ drawn" "butlast c = c' @ rev drawn" "s' = calculate h'"
      "t \<le> s' \<or> c' = []"
      "\<forall>j<length drawn. calculate ((h @ [last c]) @ take j drawn) < t"
      by blast
    have c: "c = c' @ rev (last c # drawn)"
      using True d(2) append_butlast_last_id [of c] by simp
    have below: "\<forall>j<length (last c # drawn). calculate (h @ take j (last c # drawn)) < t"
    proof (intro allI impI)
      fix j assume j: "j < length (last c # drawn)"
      show "calculate (h @ take j (last c # drawn)) < t"
      proof (cases j)
        case 0
        with True "1.prems"(2) show ?thesis by simp
      next
        case (Suc k)
        with j d(5) show ?thesis by simp
      qed
    qed
    show ?thesis
      using d(1,3,4) c below by (intro exI [of _ "last c # drawn"]) simp
  qed
qed

lemma resolve_fields:
  "resolve ps g pl = (g2, pl2) \<Longrightarrow>
     dealer_hand g2 = dealer_hand g \<and> deck_state g2 = deck_state g
     \<and> dealer_score g2 = dealer_score g \<and> player_hand g2 = player_hand g
     \<and> player_score g2 = player_score g \<and> bet_amount g2 = bet_amount g
     \<and> player_id g2 = player_id g \<and> g_id g2 = g_id g
     \<and> session_id pl2 = session_id pl \<and> p_id pl2 = p_id pl"
  by (auto simp: resolve_def Let_def split: if_splits)

lemma stand_active:
  assumes "get_player sid d = Some pl" and "get_active_game (p_id pl) d = Some g"
    and "from_dicts (player_hand g) = Inr p_hand"
    and "from_dicts (dealer_hand g) = Inr d_hand"
    and "from_dicts (deck_state g) = Inr deck_cards"
    and "dealer_play (dealer_stand_threshold st) d_hand deck_cards (calculate d_hand)
          = (h', c', s')"
    and "resolve (player_score g)
           (g\<lparr>dealer_hand := map to_dict h', deck_state := map to_dict c',
               dealer_score := s', completed_at := Some now\<rparr>)
           (pl\<lparr>total_games := total_games pl + 1\<rparr>) = (g2, pl2)"
  shows "stand st now sid d = (Inr g2, commit_game (p_id pl) g2 (commit_player pl2 d))"
  using assms by (simp add: stand_def get_or_create_existing Let_def)

text \<open>
  C3. In \<^verbatim>\<open>stand\<close> on an active game the dealer takes cards from the end of the
  persisted deck, one at a time, for as long as the score of the hand so far is below
  the threshold and the deck list is not empty; nothing refills the deck. So the dealer
  stops with a score of at least the threshold, or with the deck used up. The stored
  dealer score is the score of the final hand.
\<close>

theorem stand_dealer_stops:
  assumes "get_player sid d = Some pl" and "get_active_game (p_id pl) d = Some g"
    and "from_dicts (player_hand g) = Inr p_hand"
    and "from_dicts (dealer_hand g) = Inr d_hand"
    and "from_dicts (deck_state g) = Inr deck_cards"
  shows "\<exists>g' drawn rest. fst (stand st now sid d) = Inr g'
     \<and> deck_cards = rest @ rev drawn
     \<and> dealer_hand g' = map to_dict (d_hand @ drawn)
     \<and> deck_state g' = map to_dict rest
     \<and> dealer_score g' = calculate (d_hand @ drawn)
     \<and> (\<forall>j<length drawn. calculate (d_hand @ take j drawn) < dealer_stand_threshold st)
     \<and> (dealer_stand_threshold st \<le> dealer_score g' \<or> rest = [])"
proof -
  obtain h' c' s' where run:
    "dealer_play (dealer_stand_threshold st) d_hand deck_cards (calculate d_hand) = (h', c', s')"
    by (cases "dealer_play (dealer_stand_threshold st) d_hand deck_cards (calculate d_hand)")
  from dealer_play_result [OF run refl] obtain drawn where dr:
    "h' = d_hand @ drawn" "deck_cards = c' @ rev drawn" "s' = calculate h'"
    "dealer_stand_threshold st \<le> s' \<or> c' = []"
    "\<forall>j<length drawn. calculate (d_hand @ take j drawn) < dealer_stand_threshold st"
    by blast
  obtain g' pl' where res: "resolve (player_score g)
           (g\<lparr>dealer_hand := map to_dict h', deck_state := map to_dict c',
               dealer_score := s', completed_at := Some now\<rparr>)
           (pl\<lparr>total_games := total_games pl + 1\<rparr>) = (g', pl')"
    by (cases "resolve (player_score g)
           (g\<lparr>dealer_hand := map to_dict h', deck_state := map to_dict c',
               dealer_score := s', completed_at := Some now\<rparr>)
           (pl\<lparr>total_games := total_games pl + 1\<rparr>)")
  have g': "fst (stand st now sid d) = Inr g'"
    "dealer_hand g' = map to_dict h'" "deck_state g' = map to_dict c'" "dealer_score g' = s'"
    using stand_active [OF assms run res] resolve_fields [OF res] by simp_all
  show ?thesis
    using g' dr by (intro exI [of _ g'] exI [of _ drawn] exI [of _ c']) simp
qed

text \<open>
  In the example the dealer holds 15, draws the two of diamonds and stops at 17.
\<close>

theorem stand_dealer_stops_witness:
  "get_player ''s1'' demo_db = Some demo_player
   \<and> get_active_game (p_id demo_player) demo_db = Some demo_game
   \<and> from_dicts (player_hand demo_game) = Inr [Card SPADES KING, Card HEARTS SEVEN]
   \<and> from_dicts (dealer_hand demo_game) = Inr [Card DIAMONDS NINE, Card CLUBS SIX]
   \<and> from_dicts (deck_state demo_game) = Inr [Card CLUBS FIVE, Card DIAMONDS TWO]
   \<and> (\<exists>g' drawn rest. fst (stand default_settings 4 ''s1'' demo_db) = Inr g'
     \<and> [Card CLUBS FIVE, Card DIAMONDS TWO] = rest @ rev drawn
     \<and> dealer_hand g' = map to_dict ([Card DIAMONDS NINE, Card CLUBS SIX] @ drawn)
     \<and> deck_state g' = map to_dict rest
     \<and> dealer_score g' = calculate ([Card DIAMONDS NINE, Card CLUBS SIX] @ drawn)
     \<and> (\<forall>j<length drawn. calculate ([Card DIAMONDS NINE, Card CLUBS SIX] @ take j drawn)
            < dealer_stand_threshold default_settings)
     \<and> (dealer_stand_threshold default_settings \<le> dealer_score g' \<or> rest = []))
   \<and> map_sum id dealer_score (fst (stand default_settings 4 ''s1'' demo_db)) = Inr 17
   \<and> map_sum id deck_state (fst (stand default_settings 4 ''s1'' demo_db))
       = Inr [to_dict (Card CLUBS FIVE)]"
proof -
  have h3: "from_dicts (player_hand demo_game) = Inr [Card SPADES KING, Card HEARTS SEVEN]"
    and h4: "from_dicts (dealer_hand demo_game) = Inr [Card DIAMONDS NINE, Card CLUBS SIX]"
    and h5: "from_dicts (deck_state demo_game) = Inr [Card CLUBS FIVE, Card DIAMONDS TWO]"
    using from_dicts_to_dict [of "[Card SPADES KING, Card HEARTS SEVEN]"]
      from_dicts_to_dict [of "[Card DIAMONDS NINE, Card CLUBS SIX]"]
      from_dicts_to_dict [of "[Card CLUBS FIVE, Card DIAMONDS TWO]"]
    by (simp_all add: demo_game_def)
  have v1: "map_sum id dealer_score (fst (stand default_settings 4 ''s1'' demo_db)) = Inr 17"
    by code_simp
  have v2: "map_sum id deck_state (fst (stand default_settings 4 ''s1'' demo_db))
       = Inr [to_dict (Card CLUBS FIVE)]"
    by code_simp
  show ?thesis
    using stand_dealer_stops [OF get_player_demo_db get_active_game_demo_db h3 h4 h5,
        of default_settings 4]
      get_player_demo_db get_active_game_demo_db h3 h4 h5 v1 v2
    by blast
qed

text \<open>
  Where the deck runs out the dealer stops short. With the persisted deck empty the
  dealer draws nothing and stops at 15, below the default threshold 17. And from a
  freshly started game (the unshuffled order is one outcome of the shuffle) with the
  threshold configured as 1000, the dealer draws all 48 cards left and stops at 320 with
  the deck empty.
\<close>

theorem stand_stops_below_threshold:
  "get_active_game (p_id demo_player) exhausted_db = Some (demo_game\<lparr>deck_state := []\<rparr>)
   \<and> map_sum id dealer_score (fst (stand default_settings 4 ''s1'' exhausted_db)) = Inr 15
   \<and> map_sum id deck_state (fst (stand default_settings 4 ''s1'' exhausted_db)) = Inr []
   \<and> dealer_stand_threshold default_settings = 17
   \<and> map_sum id dealer_score
        (fst (stand (default_settings\<lparr>dealer_stand_threshold := 1000\<rparr>) 6 ''s1''
           (snd (start_game (default_settings\<lparr>dealer_stand_threshold := 1000\<rparr>) id 5 ''s1''
              10 empty_db)))) = Inr 320
   \<and> map_sum id deck_state
        (fst (stand (default_settings\<lparr>dealer_stand_threshold := 1000\<rparr>) 6 ''s1''
           (snd (start_game (default_settings\<lparr>dealer_stand_threshold := 1000\<rparr>) id 5 ''s1''
              10 empty_db)))) = Inr []"
proof -
  have a: "map_sum id dealer_score (fst (stand default_settings 4 ''s1'' exhausted_db)) = Inr 15"
    by code_simp
  have b: "map_sum id deck_state (fst (stand default_settings 4 ''s1'' exhausted_db)) = Inr []"
    by code_simp
  have c: "map_sum id dealer_score
        (fst (stand (default_settings\<lparr>dealer_stand_threshold := 1000\<rparr>) 6 ''s1''
           (snd (start_game (default_settings\<lparr>dealer_stand_threshold := 1000\<rparr>) id 5 ''s1''
              10 empty_db)))) = Inr 320"
    by code_simp
  have d: "map_sum id deck_state
        (fst (stand (default_settings\<lparr>dealer_stand_threshold := 1000\<rparr>) 6 ''s1''
           (snd (start_game (default_settings\<lparr>dealer_stand_threshold := 1000\<rparr>) id 5 ''s1''
              10 empty_db)))) = Inr []"
    by code_simp
  show ?thesis
    using a b c d get_active_game_exhausted_db by (simp add: default_settings_def)
qed

section \<open>What a call commits\<close>

lemma replace_first_same: "find P xs = Some x \<Longrightarrow> replace_first P x xs = xs"
  by (induction xs) (auto split: if_splits)

lemma filter_replace_first_other:
  "find P xs = Some x \<Longrightarrow> \<not> Q x \<Longrightarrow> \<not> Q y \<Longrightarrow> filter Q (replace_first P y xs) = filter Q xs"
  by (induction xs) (auto split: if_splits)

lemma commit_player_same: "get_player sid d = Some pl \<Longrightarrow> commit_player pl d = d"
proof -
  assume a: "get_player sid d = Some pl"
  then have "session_id pl = sid"
    using find_Some_holds [of "\<lambda>p. session_id p = sid" "players d" pl]
    by (simp add: get_player_def)
  with a show ?thesis
    by (simp add: commit_player_def get_player_def replace_first_same)
qed

lemma check_natural_fields:
  "check_natural st now bet ph dh g pl = Inr (g1, pl2) \<Longrightarrow>
     g_id g1 = g_id g \<and> player_id g1 = player_id g \<and> bet_amount g1 = bet_amount g
     \<and> player_hand g1 = player_hand g \<and> dealer_hand g1 = dealer_hand g
     \<and> deck_state g1 = deck_state g \<and> player_score g1 = player_score g
     \<and> dealer_score g1 = dealer_score g
     \<and> session_id pl2 = session_id pl \<and> p_id pl2 = p_id pl"
  by (auto simp: check_natural_def Let_def split: if_splits sum.splits)

lemma check_natural_cases:
  "check_natural st now bet ph dh g pl = Inr (g1, pl2) \<Longrightarrow>
     (\<not> is_blackjack ph \<and> g1 = g \<and> pl2 = pl)
     \<or> (is_blackjack ph \<and> is_blackjack dh \<and> status g1 = PUSH \<and> payout g1 = bet
         \<and> pl2 = pl\<lparr>balance := balance pl + bet, total_pushes := total_pushes pl + 1,
                     total_games := total_games pl + 1\<rparr>)
     \<or> (is_blackjack ph \<and> \<not> is_blackjack dh \<and> status g1 = BLACKJACK
         \<and> natural_payout (blackjack_payout st) bet = Inr (payout g1)
         \<and> pl2 = pl\<lparr>balance := balance pl + payout g1, total_wins := total_wins pl + 1,
                     total_games := total_games pl + 1\<rparr>)"
  by (auto simp: check_natural_def Let_def split: if_splits sum.splits)

lemma start_game_effect:
  assumes "get_or_create_player st sid d0 = (pl, d)"
  shows "(isl (fst (start_game st sh now sid bet d0)) \<and> snd (start_game st sh now sid bet d0) = d)
    \<or> (\<exists>ph dh cards g1 pl2. min_bet st \<le> bet \<and> bet \<le> max_bet st \<and> bet \<le> balance pl
         \<and> get_active_game (p_id pl) d = None \<and> deal sh = Inr (ph, dh, cards)
         \<and> check_natural st now bet ph dh
              (new_game (next_id (map g_id (games d))) (p_id pl) bet ph dh cards)
              (pl\<lparr>balance := balance pl - bet\<rparr>) = Inr (g1, pl2)
         \<and> start_game st sh now sid bet d0
              = (Inr g1, (commit_player pl2 d)\<lparr>games := games d @ [g1]\<rparr>))"
  using assms
  by (auto simp: start_game_def Let_def split: option.splits sum.splits prod.splits)

lemma hit_effect:
  assumes "get_or_create_player st sid d0 = (pl, d)"
  shows "(isl (fst (hit st now sid d0)) \<and> snd (hit st now sid d0) = d)
    \<or> (\<exists>g dk ph g1 pl1. get_active_game (p_id pl) d = Some g
         \<and> from_dicts (deck_state g) = Inr dk \<and> dk \<noteq> []
         \<and> from_dicts (player_hand g) = Inr ph
         \<and> hit st now sid d0 = (Inr g1, commit_game (p_id pl) g1 (commit_player pl1 d))
         \<and> (\<not> is_bust (calculate (ph @ [last dk])) \<and> pl1 = pl
              \<and> g1 = g\<lparr>player_hand := map to_dict (ph @ [last dk]),
                        deck_state := map to_dict (butlast dk),
                        player_score := calculate (ph @ [last dk])\<rparr>
            \<or> is_bust (calculate (ph @ [last dk]))
              \<and> pl1 = pl\<lparr>total_games := total_games pl + 1,
                          total_losses := total_losses pl + 1\<rparr>
              \<and> g1 = g\<lparr>player_hand := map to_dict (ph @ [last dk]),
                        deck_state := map to_dict (butlast dk),
                        player_score := calculate (ph @ [last dk]),
                        status := PLAYER_BUST, message := ''Bust! You lose!'',
                        completed_at := Some now\<rparr>))"
proof -
  have same: "commit_player pl d = d"
    using get_or_create_player_found [OF assms] commit_player_same by blast
  show ?thesis
    using assms same
    by (auto simp: hit_def Let_def split: option.splits sum.splits)
qed

lemma stand_effect:
  assumes "get_or_create_player st sid d0 = (pl, d)"
  shows "(isl (fst (stand st now sid d0)) \<and> snd (stand st now sid d0) = d)
    \<or> (\<exists>g ph dh dk h' c' s' g2 pl2. get_active_game (p_id pl) d = Some g
         \<and> from_dicts (player_hand g) = Inr ph \<and> from_dicts (dealer_hand g) = Inr dh
         \<and> from_dicts (deck_state g) = Inr dk
         \<and> dealer_play (dealer_stand_threshold st) dh dk (calculate dh) = (h', c', s')
         \<and> resolve (player_score g)
              (g\<lparr>dealer_hand := map to_dict h', deck_state := map to_dict c',
                  dealer_score := s', completed_at := Some now\<rparr>)
              (pl\<lparr>total_games := total_games pl + 1\<rparr>) = (g2, pl2)
         \<and> stand st now sid d0 = (Inr g2, commit_game (p_id pl) g2 (commit_player pl2 d)))"
  using assms
  by (auto simp: stand_def Let_def split: option.splits sum.splits prod.splits)

lemma resolve_outcome:
  "resolve ps g pl = (g2, pl2) \<Longrightarrow>
     status g2 = (if is_bust (dealer_score g) then DEALER_BUST
                  else if dealer_score g > ps then DEALER_WIN
                  else if dealer_score g < ps then PLAYER_WIN else PUSH)
     \<and> payout g2 = (if status g2 = DEALER_WIN then payout g
                     else if status g2 = PUSH then bet_amount g else 2 * bet_amount g)
     \<and> balance pl2 = balance pl + (if status g2 = DEALER_WIN then 0 else payout g2)
     \<and> total_games pl2 = total_games pl
     \<and> total_wins pl2 + total_losses pl2 + total_pushes pl2
         = total_wins pl + total_losses pl + total_pushes pl + 1"
  by (auto simp: resolve_def Let_def split: if_splits)

section \<open>The natural blackjack\<close>

text \<open>
  C4. When a valid bet is placed, no game is open, and the deal gives the player a
  natural blackjack and the dealer none, the outcome is that of the float computation
  \<^verbatim>\<open>int(bet * (1 + blackjack_payout))\<close>. When it yields an integer, the game ends at
  once with status BLACKJACK, that integer is the payout, and the balance is credited
  with it after the bet was deducted. When it raises (the product is not a finite
  float), \<^verbatim>\<open>start_game\<close> raises and stores nothing. With the default multiplier 1.5
  and a bet from 0 to below \<open>2 ^ 50\<close> no rounding occurs and the payout is
  \<open>5 * bet div 2\<close>: two and a half times the bet when the bet is even, half a unit less
  when it is odd.
\<close>

theorem start_game_blackjack_payout:
  assumes "get_or_create_player st sid d = (pl, d1)"
    and "min_bet st \<le> bet" and "bet \<le> max_bet st" and "bet \<le> balance pl"
    and "get_active_game (p_id pl) d = None"
    and "deal shuffle = Inr (p_hand, d_hand, cards)"
    and "is_blackjack p_hand" and "\<not> is_blackjack d_hand"
  shows "(case natural_payout (blackjack_payout st) bet of
            Inl e \<Rightarrow> start_game st shuffle now sid bet d = (Inl e, d1)
          | Inr pay \<Rightarrow>
              (\<exists>g. fst (start_game st shuffle now sid bet d) = Inr g \<and> status g = BLACKJACK
                 \<and> payout g = pay \<and> g \<in> set (games (snd (start_game st shuffle now sid bet d)))
                 \<and> get_player sid (snd (start_game st shuffle now sid bet d))
                     = Some (pl\<lparr>balance := balance pl - bet + pay,
                                 total_wins := total_wins pl + 1,
                                 total_games := total_games pl + 1\<rparr>)))
     \<and> (blackjack_payout st = Finite (3 / 2) \<and> 0 \<le> bet \<and> bet < 2 ^ 50
          \<longrightarrow> natural_payout (blackjack_payout st) bet = Inr (5 * bet div 2))"
proof -
  have found: "get_player sid d1 = Some pl" "session_id pl = sid" "games d1 = games d"
    using get_or_create_player_found [OF assms(1)] by simp_all
  have act: "get_active_game (p_id pl) d1 = None"
    using assms(5) found(3) by (simp add: get_active_game_def)
  have first: "case natural_payout (blackjack_payout st) bet of
            Inl e \<Rightarrow> start_game st shuffle now sid bet d = (Inl e, d1)
          | Inr pay \<Rightarrow>
              (\<exists>g. fst (start_game st shuffle now sid bet d) = Inr g \<and> status g = BLACKJACK
                 \<and> payout g = pay \<and> g \<in> set (games (snd (start_game st shuffle now sid bet d)))
                 \<and> get_player sid (snd (start_game st shuffle now sid bet d))
                     = Some (pl\<lparr>balance := balance pl - bet + pay,
                                 total_wins := total_wins pl + 1,
                                 total_games := total_games pl + 1\<rparr>))"
  proof (cases "natural_payout (blackjack_payout st) bet")
    case (Inl e)
    then have "check_natural st now bet p_hand d_hand
        (new_game (next_id (map g_id (games d1))) (p_id pl) bet p_hand d_hand cards)
        (pl\<lparr>balance := balance pl - bet\<rparr>) = Inl e"
      using assms(7,8) by (simp add: check_natural_def)
    then have "start_game st shuffle now sid bet d = (Inl e, d1)"
      using assms(1-4,6) act by (simp add: start_game_def Let_def)
    with Inl show ?thesis by simp
  next
    case (Inr pay)
    define g1 where "g1 = (new_game (next_id (map g_id (games d1))) (p_id pl) bet p_hand d_hand
        cards)\<lparr>status := BLACKJACK, message := ''Blackjack! You win!'', payout := pay,
               completed_at := Some now\<rparr>"
    define pl2 where "pl2 = pl\<lparr>balance := balance pl - bet + pay,
        total_wins := total_wins pl + 1, total_games := total_games pl + 1\<rparr>"
    have cn: "check_natural st now bet p_hand d_hand
        (new_game (next_id (map g_id (games d1))) (p_id pl) bet p_hand d_hand cards)
        (pl\<lparr>balance := balance pl - bet\<rparr>) = Inr (g1, pl2)"
      using assms(7,8) Inr by (simp add: check_natural_def g1_def pl2_def)
    have run: "start_game st shuffle now sid bet d
        = (Inr g1, (commit_player pl2 d1)\<lparr>games := games d1 @ [g1]\<rparr>)"
      using assms(1-4,6) act cn by (simp add: start_game_def Let_def)
    have "get_player sid ((commit_player pl2 d1)\<lparr>games := games d1 @ [g1]\<rparr>) = Some pl2"
      using get_player_commit [OF found(1), of pl2] found(2)
      by (simp add: get_player_def pl2_def)
    then have "fst (start_game st shuffle now sid bet d) = Inr g1 \<and> status g1 = BLACKJACK
        \<and> payout g1 = pay \<and> g1 \<in> set (games (snd (start_game st shuffle now sid bet d)))
        \<and> get_player sid (snd (start_game st shuffle now sid bet d)) = Some pl2"
      using run by (simp add: g1_def)
    then show ?thesis
      using Inr by (auto simp: pl2_def)
  qed
  have "blackjack_payout st = Finite (3 / 2) \<and> 0 \<le> bet \<and> bet < 2 ^ 50
      \<longrightarrow> natural_payout (blackjack_payout st) bet = Inr (5 * bet div 2)"
    using natural_payout_default [of bet] by auto
  with first show ?thesis
    by (rule conjI)
qed


lemma deal_rotate1:
  "deal rotate1 = Inr ([Card SPADES ACE, Card CLUBS KING], [Card CLUBS QUEEN, Card CLUBS JACK],
     butlast (butlast (butlast (butlast (rotate1 unshuffled)))))"
  by code_simp

text \<open>
  Rotating the fresh deck by one card is one outcome of the shuffle: it leaves the ace of
  spades on top of the king of clubs, which the player is dealt. A bet of 10 is paid 25
  and the balance goes from 100 to 115. With an infinite multiplier the same call raises
  OverflowError and leaves only the new player row.
\<close>

theorem start_game_blackjack_payout_witness:
  "get_or_create_player default_settings ''s1'' empty_db
     = (fresh_player, \<lparr>players = [fresh_player], games = []\<rparr>)
   \<and> min_bet default_settings \<le> 10 \<and> 10 \<le> max_bet default_settings
   \<and> 10 \<le> balance fresh_player
   \<and> get_active_game (p_id fresh_player) empty_db = None
   \<and> deal rotate1 = Inr ([Card SPADES ACE, Card CLUBS KING],
        [Card CLUBS QUEEN, Card CLUBS JACK],
        butlast (butlast (butlast (butlast (rotate1 unshuffled)))))
   \<and> is_blackjack [Card SPADES ACE, Card CLUBS KING]
   \<and> \<not> is_blackjack [Card CLUBS QUEEN, Card CLUBS JACK]
   \<and> (\<exists>g. fst (start_game default_settings rotate1 7 ''s1'' 10 empty_db) = Inr g
        \<and> status g = BLACKJACK \<and> payout g = 25
        \<and> get_player ''s1'' (snd (start_game default_settings rotate1 7 ''s1'' 10 empty_db))
            = Some \<lparr>p_id = 1, session_id = ''s1'', balance = 115, total_games = 1,
                    total_wins = 1, total_losses = 0, total_pushes = 0\<rparr>)
   \<and> blackjack_payout default_settings = Finite (3 / 2) \<and> (0 :: int) \<le> 10
   \<and> (10 :: int) < 2 ^ 50
   \<and> natural_payout (blackjack_payout default_settings) 10 = Inr 25
   \<and> natural_payout PosInf 10 = Inl OverflowError
   \<and> start_game (default_settings\<lparr>blackjack_payout := PosInf\<rparr>) rotate1 7 ''s1'' 10 empty_db
       = (Inl OverflowError, \<lparr>players = [fresh_player], games = []\<rparr>)"
proof -
  have h1: "get_or_create_player default_settings ''s1'' empty_db
     = (fresh_player, \<lparr>players = [fresh_player], games = []\<rparr>)"
    by (simp add: get_or_create_player_def get_player_def empty_db_def fresh_player_def
        default_settings_def next_id_def Let_def)
  have h2: "min_bet default_settings \<le> 10" and h3: "10 \<le> max_bet default_settings"
    and h4: "10 \<le> balance fresh_player"
    by (simp_all add: default_settings_def fresh_player_def)
  have h5: "get_active_game (p_id fresh_player) empty_db = None"
    by (simp add: get_active_game_def empty_db_def)
  have h7: "is_blackjack [Card SPADES ACE, Card CLUBS KING]"
    and h8: "\<not> is_blackjack [Card CLUBS QUEEN, Card CLUBS JACK]"
    by (simp_all add: is_blackjack_def calculate_def is_ace_def value_def)
  have m: "blackjack_payout default_settings = Finite (3 / 2)"
    by (simp add: default_settings_def)
  have e: "fresh_player\<lparr>balance := balance fresh_player - 10 + 25,
        total_wins := total_wins fresh_player + 1, total_games := total_games fresh_player + 1\<rparr>
      = \<lparr>p_id = 1, session_id = ''s1'', balance = 115, total_games = 1,
         total_wins = 1, total_losses = 0, total_pushes = 0\<rparr>"
    by (simp add: fresh_player_def)
  note main = start_game_blackjack_payout [OF h1 h2 h3 h4 h5 deal_rotate1 h7 h8, of 7]
  from main m have np: "natural_payout (blackjack_payout default_settings) 10 = Inr 25"
    by simp
  from main obtain g where g: "fst (start_game default_settings rotate1 7 ''s1'' 10 empty_db) = Inr g"
    "status g = BLACKJACK" "payout g = 25"
    "get_player ''s1'' (snd (start_game default_settings rotate1 7 ''s1'' 10 empty_db))
       = Some (fresh_player\<lparr>balance := balance fresh_player - 10 + 25,
           total_wins := total_wins fresh_player + 1,
           total_games := total_games fresh_player + 1\<rparr>)"
    unfolding np by (simp only: sum.case) blast
  have p: "payout g = 25" by (rule g(3))
  have "\<exists>g. fst (start_game default_settings rotate1 7 ''s1'' 10 empty_db) = Inr g
        \<and> status g = BLACKJACK \<and> payout g = 25
        \<and> get_player ''s1'' (snd (start_game default_settings rotate1 7 ''s1'' 10 empty_db))
            = Some \<lparr>p_id = 1, session_id = ''s1'', balance = 115, total_games = 1,
                    total_wins = 1, total_losses = 0, total_pushes = 0\<rparr>"
    using g(1,2,4) p e by (intro exI [of _ g]) simp
  note ok = this
  have "fl (of_int 10 / 2 ^ 0) = Finite (of_int 10 / 2 ^ 0)"
    by (rule fl_exact) simp_all
  then have ten: "fl 10 = Finite 10" by simp
  have inf: "natural_payout PosInf 10 = Inl OverflowError"
    by (simp add: natural_payout_def float_of_setting_def float_of_int_def int_of_float_def
        ten)
  have i1: "get_or_create_player (default_settings\<lparr>blackjack_payout := PosInf\<rparr>) ''s1'' empty_db
     = (fresh_player, \<lparr>players = [fresh_player], games = []\<rparr>)"
    by (simp add: get_or_create_player_def get_player_def empty_db_def fresh_player_def
        default_settings_def next_id_def Let_def)
  have i2: "min_bet (default_settings\<lparr>blackjack_payout := PosInf\<rparr>) \<le> 10"
    and i3: "10 \<le> max_bet (default_settings\<lparr>blackjack_payout := PosInf\<rparr>)"
    by (simp_all add: default_settings_def)
  have raise: "start_game (default_settings\<lparr>blackjack_payout := PosInf\<rparr>) rotate1 7 ''s1'' 10
      empty_db = (Inl OverflowError, \<lparr>players = [fresh_player], games = []\<rparr>)"
    using start_game_blackjack_payout [OF i1 i2 i3 h4 h5 deal_rotate1 h7 h8, of 7] inf
    by simp
  have c: "(0 :: int) \<le> 10" "(10 :: int) < 2 ^ 50"
    by simp_all
  show ?thesis
    using h1 h2 h3 h4 h5 deal_rotate1 h7 h8 ok m c np inf raise by blast
qed

text \<open>
  An odd bet is not paid two and a half times: with the same deal and a bet of 5 the player
  is credited 12, while 5 * (1 + 1.5) is 12.5. The balance goes from 100 to 107. And the
  payout is not always the exact product truncated: with a multiplier of 0.4 a bet of 45
  is paid 62, while 45 * (1 + 0.4) is 63, because 1 + 0.4 is rounded down to the float
  below 1.4.
\<close>

theorem blackjack_payout_truncated:
  "map_sum id status (fst (start_game default_settings rotate1 7 ''s1'' 5 empty_db))
     = Inr BLACKJACK
   \<and> map_sum id payout (fst (start_game default_settings rotate1 7 ''s1'' 5 empty_db)) = Inr 12
   \<and> map_option balance
        (get_player ''s1'' (snd (start_game default_settings rotate1 7 ''s1'' 5 empty_db)))
       = Some 107
   \<and> (of_int 12 :: rat) \<noteq> of_int 5 * (1 + 3 / 2)
   \<and> map_sum id payout
        (fst (start_game (default_settings\<lparr>blackjack_payout := Finite (2 / 5)\<rparr>) rotate1 7
           ''s1'' 45 empty_db)) = Inr 62
   \<and> (of_int 45 * (1 + 2 / 5) :: rat) = 63"
proof -
  have np: "natural_payout (Finite (3 / 2)) 5 = Inr 12"
    using natural_payout_default [of 5] by simp
  have bj: "is_blackjack [Card SPADES ACE, Card CLUBS KING]"
    "\<not> is_blackjack [Card CLUBS QUEEN, Card CLUBS JACK]"
    by (simp_all add: is_blackjack_def calculate_def is_ace_def value_def)
  have goc: "get_or_create_player st ''s1'' empty_db
      = (\<lparr>p_id = 1, session_id = ''s1'', balance = initial_balance st, total_games = 0,
          total_wins = 0, total_losses = 0, total_pushes = 0\<rparr>,
         \<lparr>players = [\<lparr>p_id = 1, session_id = ''s1'', balance = initial_balance st,
            total_games = 0, total_wins = 0, total_losses = 0, total_pushes = 0\<rparr>],
          games = []\<rparr>)" for st
    by (simp add: get_or_create_player_def get_player_def empty_db_def next_id_def Let_def)
  have run: "start_game default_settings rotate1 7 ''s1'' 5 empty_db
      = (Inr ((new_game 1 1 5 [Card SPADES ACE, Card CLUBS KING]
                [Card CLUBS QUEEN, Card CLUBS JACK]
                (butlast (butlast (butlast (butlast (rotate1 unshuffled))))))
              \<lparr>status := BLACKJACK, message := ''Blackjack! You win!'', payout := 12,
               completed_at := Some 7\<rparr>),
         \<lparr>players = [\<lparr>p_id = 1, session_id = ''s1'', balance = 107, total_games = 1,
            total_wins = 1, total_losses = 0, total_pushes = 0\<rparr>],
          games = [(new_game 1 1 5 [Card SPADES ACE, Card CLUBS KING]
                [Card CLUBS QUEEN, Card CLUBS JACK]
                (butlast (butlast (butlast (butlast (rotate1 unshuffled))))))
              \<lparr>status := BLACKJACK, message := ''Blackjack! You win!'', payout := 12,
               completed_at := Some 7\<rparr>]\<rparr>)"
    using np bj
    by (simp add: start_game_def goc deal_rotate1 check_natural_def Let_def
        default_settings_def get_active_game_def next_id_def commit_player_def)
  have a: "map_sum id status (fst (start_game default_settings rotate1 7 ''s1'' 5 empty_db))
     = Inr BLACKJACK"
    by (simp add: run)
  have b: "map_sum id payout (fst (start_game default_settings rotate1 7 ''s1'' 5 empty_db))
     = Inr 12"
    by (simp add: run)
  have c: "map_option balance
        (get_player ''s1'' (snd (start_game default_settings rotate1 7 ''s1'' 5 empty_db)))
       = Some 107"
    by (simp add: run get_player_def)
  have d: "map_sum id payout
        (fst (start_game (default_settings\<lparr>blackjack_payout := Finite (2 / 5)\<rparr>) rotate1 7
           ''s1'' 45 empty_db)) = Inr 62"
    using natural_payout_two_fifths bj
    by (simp add: start_game_def goc deal_rotate1 check_natural_def Let_def
        default_settings_def get_active_game_def)
  show ?thesis
    using a b c d by simp
qed

section \<open>The counters add up\<close>

lemma counters_ok_commit:
  "list_all counters_ok (players d) \<Longrightarrow> counters_ok p \<Longrightarrow>
     list_all counters_ok (players (commit_player p d))"
  using set_replace_first [of "\<lambda>q. session_id q = session_id p" p "players d"]
  by (auto simp: commit_player_def list_all_iff)

lemma counters_ok_get_or_create:
  assumes "list_all counters_ok (players d0)" and "get_or_create_player st sid d0 = (pl, d)"
  shows "list_all counters_ok (players d) \<and> counters_ok pl"
proof -
  from get_or_create_player_cases [OF assms(2)] show ?thesis
  proof
    assume "get_player sid d0 = Some pl \<and> d = d0"
    then show ?thesis
      using assms(1) find_Some_holds [of "\<lambda>p. session_id p = sid" "players d0" pl]
      by (auto simp: get_player_def list_all_iff)
  next
    assume "get_player sid d0 = None \<and> players d = players d0 @ [pl]
        \<and> balance pl = initial_balance st \<and> total_games pl = 0 \<and> total_wins pl = 0
        \<and> total_losses pl = 0 \<and> total_pushes pl = 0"
    then show ?thesis
      using assms(1) by (simp add: counters_ok_def)
  qed
qed

lemma counters_ok_start:
  assumes "list_all counters_ok (players d0)"
  shows "list_all counters_ok (players (snd (start_game st sh now sid bet d0)))"
proof -
  obtain pl d where g: "get_or_create_player st sid d0 = (pl, d)"
    by (cases "get_or_create_player st sid d0")
  from counters_ok_get_or_create [OF assms g]
  have ok: "list_all counters_ok (players d)" "counters_ok pl" by simp_all
  from start_game_effect [OF g, of sh now bet] show ?thesis
  proof (elim disjE exE conjE)
    assume "snd (start_game st sh now sid bet d0) = d"
    with ok show ?thesis by simp
  next
    fix ph dh cards g1 pl2
    assume cn: "check_natural st now bet ph dh
        (new_game (next_id (map g_id (games d))) (p_id pl) bet ph dh cards)
        (pl\<lparr>balance := balance pl - bet\<rparr>) = Inr (g1, pl2)"
      and run: "start_game st sh now sid bet d0
        = (Inr g1, (commit_player pl2 d)\<lparr>games := games d @ [g1]\<rparr>)"
    have "counters_ok pl2"
      using check_natural_cases [OF cn] ok(2) by (auto simp: counters_ok_def)
    then show ?thesis
      using run counters_ok_commit [OF ok(1)] by simp
  qed
qed

lemma counters_ok_hit:
  assumes "list_all counters_ok (players d0)"
  shows "list_all counters_ok (players (snd (hit st now sid d0)))"
proof -
  obtain pl d where g: "get_or_create_player st sid d0 = (pl, d)"
    by (cases "get_or_create_player st sid d0")
  from counters_ok_get_or_create [OF assms g]
  have ok: "list_all counters_ok (players d)" "counters_ok pl" by simp_all
  from hit_effect [OF g, of now] show ?thesis
  proof (elim disjE exE conjE)
    assume "snd (hit st now sid d0) = d"
    with ok show ?thesis by simp
  next
    fix gm dk ph g1 pl1
    assume "hit st now sid d0 = (Inr g1, commit_game (p_id pl) g1 (commit_player pl1 d))"
      and "pl1 = pl"
    then show ?thesis
      using counters_ok_commit [OF ok(1), of pl1] ok(2) by (simp add: players_commit_game)
  next
    fix gm dk ph g1 pl1
    assume run: "hit st now sid d0 = (Inr g1, commit_game (p_id pl) g1 (commit_player pl1 d))"
      and pl1: "pl1 = pl\<lparr>total_games := total_games pl + 1, total_losses := total_losses pl + 1\<rparr>"
    have "counters_ok pl1"
      using ok(2) by (simp add: pl1 counters_ok_def)
    then show ?thesis
      using run counters_ok_commit [OF ok(1), of pl1]
      by (simp add: players_commit_game)
  qed
qed

lemma counters_ok_stand:
  assumes "list_all counters_ok (players d0)"
  shows "list_all counters_ok (players (snd (stand st now sid d0)))"
proof -
  obtain pl d where g: "get_or_create_player st sid d0 = (pl, d)"
    by (cases "get_or_create_player st sid d0")
  from counters_ok_get_or_create [OF assms g]
  have ok: "list_all counters_ok (players d)" "counters_ok pl" by simp_all
  from stand_effect [OF g, of now] show ?thesis
  proof (elim disjE exE conjE)
    assume "snd (stand st now sid d0) = d"
    with ok show ?thesis by simp
  next
    fix gm ph dh dk h' c' s' g2 pl2
    assume res: "resolve (player_score gm)
          (gm\<lparr>dealer_hand := map to_dict h', deck_state := map to_dict c',
               dealer_score := s', completed_at := Some now\<rparr>)
          (pl\<lparr>total_games := total_games pl + 1\<rparr>) = (g2, pl2)"
      and run: "stand st now sid d0 = (Inr g2, commit_game (p_id pl) g2 (commit_player pl2 d))"
    have "counters_ok pl2"
      using resolve_outcome [OF res] ok(2) by (simp add: counters_ok_def)
    then show ?thesis
      using run counters_ok_commit [OF ok(1)] by (simp add: players_commit_game)
  qed
qed

lemma counters_ok_reset:
  assumes "list_all counters_ok (players d0)"
  shows "list_all counters_ok (players (snd (reset_player st sid d0)))"
proof -
  obtain pl d where g: "get_or_create_player st sid d0 = (pl, d)"
    by (cases "get_or_create_player st sid d0")
  from counters_ok_get_or_create [OF assms g]
  have ok: "list_all counters_ok (players d)" "counters_ok pl" by simp_all
  have "counters_ok (pl\<lparr>balance := initial_balance st\<rparr>)"
    using ok(2) by (simp add: counters_ok_def)
  then show ?thesis
    using g counters_ok_commit [OF ok(1)] by (simp add: reset_player_def Let_def)
qed

lemma reachable_counters_ok: "reachable st d \<Longrightarrow> list_all counters_ok (players d)"
proof (induction rule: reachable.induct)
  case r_empty
  show ?case by (simp add: empty_db_def)
next
  case (r_player d sid)
  show ?case
    using counters_ok_get_or_create [OF r_player.IH, of st sid]
    by (cases "get_or_create_player st sid d") simp
next
  case (r_start d shuffle now sid bet)
  from r_start.IH show ?case by (rule counters_ok_start)
next
  case (r_hit d now sid)
  from r_hit.IH show ?case by (rule counters_ok_hit)
next
  case (r_stand d now sid)
  from r_stand.IH show ?case by (rule counters_ok_stand)
next
  case (r_reset d sid)
  from r_reset.IH show ?case by (rule counters_ok_reset)
qed

lemma start_game_counted:
  assumes "get_player sid d = Some pl"
  shows "\<exists>pl1. get_player sid (snd (start_game st sh now sid bet d)) = Some pl1
     \<and> counted (fst (start_game st sh now sid bet d)) pl pl1"
proof -
  have goc: "get_or_create_player st sid d = (pl, d)"
    using assms by (rule get_or_create_existing)
  have sid: "session_id pl = sid"
    using get_or_create_player_found [OF goc] by simp
  from start_game_effect [OF goc, of sh now bet] show ?thesis
  proof (elim disjE exE conjE)
    assume "isl (fst (start_game st sh now sid bet d))"
      and "snd (start_game st sh now sid bet d) = d"
    then show ?thesis
      using assms by (cases "fst (start_game st sh now sid bet d)") (simp_all add: counted_def)
  next
    fix ph dh cards g1 pl2
    assume cn: "check_natural st now bet ph dh
        (new_game (next_id (map g_id (games d))) (p_id pl) bet ph dh cards)
        (pl\<lparr>balance := balance pl - bet\<rparr>) = Inr (g1, pl2)"
      and run: "start_game st sh now sid bet d
        = (Inr g1, (commit_player pl2 d)\<lparr>games := games d @ [g1]\<rparr>)"
    have "session_id pl2 = sid"
      using check_natural_fields [OF cn] sid by simp
    then have p: "get_player sid (snd (start_game st sh now sid bet d)) = Some pl2"
      using run get_player_commit [OF assms, of pl2] by (simp add: get_player_def)
    have "counted (Inr g1) pl pl2"
      using check_natural_cases [OF cn]
      by (auto simp: counted_def counters_def new_game_def)
    then show ?thesis
      using p run by simp
  qed
qed

lemma hit_counted:
  assumes "get_player sid d = Some pl"
  shows "\<exists>pl1. get_player sid (snd (hit st now sid d)) = Some pl1
     \<and> counted (fst (hit st now sid d)) pl pl1"
proof -
  have goc: "get_or_create_player st sid d = (pl, d)"
    using assms by (rule get_or_create_existing)
  have sid: "session_id pl = sid"
    using get_or_create_player_found [OF goc] by simp
  from hit_effect [OF goc, of now] show ?thesis
  proof (elim disjE exE conjE)
    assume "isl (fst (hit st now sid d))" and "snd (hit st now sid d) = d"
    then show ?thesis
      using assms by (cases "fst (hit st now sid d)") (simp_all add: counted_def)
  next
    fix gm dk ph g1 pl1
    assume act: "get_active_game (p_id pl) d = Some gm"
      and run: "hit st now sid d = (Inr g1, commit_game (p_id pl) g1 (commit_player pl1 d))"
      and pl1: "pl1 = pl"
      and g1: "g1 = gm\<lparr>player_hand := map to_dict (ph @ [last dk]),
                        deck_state := map to_dict (butlast dk),
                        player_score := calculate (ph @ [last dk])\<rparr>"
    have "status gm = IN_PROGRESS"
      using act find_Some_holds [of "active (p_id pl)" "games d" gm]
      by (simp add: get_active_game_def active_def)
    then have c: "counted (Inr g1) pl pl1"
      by (simp add: counted_def g1 pl1)
    have "get_player sid (snd (hit st now sid d)) = Some pl1"
      using run get_player_commit [OF assms, of pl1] sid pl1
      by (simp add: get_player_def players_commit_game)
    then show ?thesis
      using c run by simp
  next
    fix gm dk ph g1 pl1
    assume run: "hit st now sid d = (Inr g1, commit_game (p_id pl) g1 (commit_player pl1 d))"
      and pl1: "pl1 = pl\<lparr>total_games := total_games pl + 1,
                          total_losses := total_losses pl + 1\<rparr>"
      and g1: "g1 = gm\<lparr>player_hand := map to_dict (ph @ [last dk]),
                        deck_state := map to_dict (butlast dk),
                        player_score := calculate (ph @ [last dk]),
                        status := PLAYER_BUST, message := ''Bust! You lose!'',
                        completed_at := Some now\<rparr>"
    have c: "counted (Inr g1) pl pl1"
      by (simp add: counted_def counters_def g1 pl1)
    have "get_player sid (snd (hit st now sid d)) = Some pl1"
      using run get_player_commit [OF assms, of pl1] sid pl1
      by (simp add: get_player_def players_commit_game)
    then show ?thesis
      using c run by simp
  qed
qed

lemma stand_counted:
  assumes "get_player sid d = Some pl"
  shows "\<exists>pl1. get_player sid (snd (stand st now sid d)) = Some pl1
     \<and> counted (fst (stand st now sid d)) pl pl1"
proof -
  have goc: "get_or_create_player st sid d = (pl, d)"
    using assms by (rule get_or_create_existing)
  have sid: "session_id pl = sid"
    using get_or_create_player_found [OF goc] by simp
  from stand_effect [OF goc, of now] show ?thesis
  proof (elim disjE exE conjE)
    assume "isl (fst (stand st now sid d))" and "snd (stand st now sid d) = d"
    then show ?thesis
      using assms by (cases "fst (stand st now sid d)") (simp_all add: counted_def)
  next
    fix gm ph dh dk h' c' s' g2 pl2
    assume res: "resolve (player_score gm)
          (gm\<lparr>dealer_hand := map to_dict h', deck_state := map to_dict c',
               dealer_score := s', completed_at := Some now\<rparr>)
          (pl\<lparr>total_games := total_games pl + 1\<rparr>) = (g2, pl2)"
      and run: "stand st now sid d = (Inr g2, commit_game (p_id pl) g2 (commit_player pl2 d))"
    have c: "counted (Inr g2) pl pl2"
      using res by (auto simp: resolve_def counted_def counters_def Let_def split: if_splits)
    have "session_id pl2 = sid"
      using resolve_fields [OF res] sid by simp
    then have "get_player sid (snd (stand st now sid d)) = Some pl2"
      using run get_player_commit [OF assms, of pl2]
      by (simp add: get_player_def players_commit_game)
    then show ?thesis
      using c run by simp
  qed
qed

text \<open>
  C10. In every state the service can reach, every player row has
  \<open>total_games = total_wins + total_losses + total_pushes\<close>. A new row starts with all
  four at 0. A \<^verbatim>\<open>start_game\<close>, \<^verbatim>\<open>hit\<close> or \<^verbatim>\<open>stand\<close> that returns a game in a
  terminal status adds 1 to the games and to exactly one of the other three counters of
  the session's player; a call that fails or leaves the game IN_PROGRESS, and every
  \<^verbatim>\<open>reset_player\<close> and \<^verbatim>\<open>get_or_create_player\<close>, leaves the four as they were.
\<close>

theorem total_games_is_sum:
  assumes "reachable st d"
  shows "(p \<in> set (players d) \<longrightarrow>
            total_games p = total_wins p + total_losses p + total_pushes p)
    \<and> (get_player sid d = Some pl \<longrightarrow>
          (\<exists>pl1. get_player sid (snd (start_game st shuffle now sid bet d)) = Some pl1
             \<and> counted (fst (start_game st shuffle now sid bet d)) pl pl1)
        \<and> (\<exists>pl1. get_player sid (snd (hit st now sid d)) = Some pl1
             \<and> counted (fst (hit st now sid d)) pl pl1)
        \<and> (\<exists>pl1. get_player sid (snd (stand st now sid d)) = Some pl1
             \<and> counted (fst (stand st now sid d)) pl pl1)
        \<and> counters (fst (reset_player st sid d)) = counters pl
        \<and> get_or_create_player st sid d = (pl, d))"
proof -
  have "p \<in> set (players d) \<longrightarrow>
      total_games p = total_wins p + total_losses p + total_pushes p"
    using reachable_counters_ok [OF assms] by (simp add: list_all_iff counters_ok_def)
  moreover have "get_player sid d = Some pl \<longrightarrow>
      counters (fst (reset_player st sid d)) = counters pl
      \<and> get_or_create_player st sid d = (pl, d)"
    by (simp add: reset_player_def get_or_create_existing Let_def counters_def)
  ultimately show ?thesis
    using start_game_counted [of sid d pl st shuffle now bet] hit_counted [of sid d pl st now]
      stand_counted [of sid d pl st now]
    by blast
qed

text \<open>
  A bet of 10 on the unshuffled deck and a stand: twenty against twenty, a push. The
  stand takes the counters from all 0 to one game and one push.
\<close>

theorem total_games_is_sum_witness:
  "reachable default_settings
     (snd (stand default_settings 6 ''s1''
        (snd (start_game default_settings id 5 ''s1'' 10 empty_db))))
   \<and> \<lparr>p_id = 1, session_id = ''s1'', balance = 100, total_games = 1, total_wins = 0,
       total_losses = 0, total_pushes = 1\<rparr>
      \<in> set (players (snd (stand default_settings 6 ''s1''
            (snd (start_game default_settings id 5 ''s1'' 10 empty_db)))))
   \<and> total_games \<lparr>p_id = 1, session_id = ''s1'', balance = 100, total_games = 1,
        total_wins = 0, total_losses = 0, total_pushes = 1\<rparr>
      = total_wins \<lparr>p_id = 1, session_id = ''s1'', balance = 100, total_games = 1,
          total_wins = 0, total_losses = 0, total_pushes = 1\<rparr>
        + total_losses \<lparr>p_id = 1, session_id = ''s1'', balance = 100, total_games = 1,
            total_wins = 0, total_losses = 0, total_pushes = 1\<rparr>
        + total_pushes \<lparr>p_id = 1, session_id = ''s1'', balance = 100, total_games = 1,
            total_wins = 0, total_losses = 0, total_pushes = 1\<rparr>
   \<and> reachable default_settings (snd (start_game default_settings id 5 ''s1'' 10 empty_db))
   \<and> get_player ''s1'' (snd (start_game default_settings id 5 ''s1'' 10 empty_db))
       = Some \<lparr>p_id = 1, session_id = ''s1'', balance = 90, total_games = 0, total_wins = 0,
           total_losses = 0, total_pushes = 0\<rparr>
   \<and> (\<exists>pl1. get_player ''s1'' (snd (stand default_settings 6 ''s1''
            (snd (start_game default_settings id 5 ''s1'' 10 empty_db)))) = Some pl1
        \<and> counted (fst (stand default_settings 6 ''s1''
            (snd (start_game default_settings id 5 ''s1'' 10 empty_db))))
           \<lparr>p_id = 1, session_id = ''s1'', balance = 90, total_games = 0, total_wins = 0,
            total_losses = 0, total_pushes = 0\<rparr> pl1)
   \<and> map_option counters (get_player ''s1'' (snd (stand default_settings 6 ''s1''
            (snd (start_game default_settings id 5 ''s1'' 10 empty_db))))) = Some (1, 0, 0, 1)"
proof -
  have r1: "reachable default_settings
      (snd (start_game default_settings id 5 ''s1'' 10 empty_db))"
    by (intro reachable.r_start reachable.r_empty)
  have r: "reachable default_settings
     (snd (stand default_settings 6 ''s1''
        (snd (start_game default_settings id 5 ''s1'' 10 empty_db))))"
    by (intro reachable.r_stand reachable.r_start reachable.r_empty)
  have "players (snd (stand default_settings 6 ''s1''
            (snd (start_game default_settings id 5 ''s1'' 10 empty_db))))
      = [\<lparr>p_id = 1, session_id = ''s1'', balance = 100, total_games = 1, total_wins = 0,
          total_losses = 0, total_pushes = 1\<rparr>]"
    by code_simp
  then have m: "\<lparr>p_id = 1, session_id = ''s1'', balance = 100, total_games = 1, total_wins = 0,
       total_losses = 0, total_pushes = 1\<rparr>
      \<in> set (players (snd (stand default_settings 6 ''s1''
            (snd (start_game default_settings id 5 ''s1'' 10 empty_db)))))"
    by simp
  have g: "get_player ''s1'' (snd (start_game default_settings id 5 ''s1'' 10 empty_db))
       = Some \<lparr>p_id = 1, session_id = ''s1'', balance = 90, total_games = 0, total_wins = 0,
           total_losses = 0, total_pushes = 0\<rparr>"
    by code_simp
  have c: "map_option counters (get_player ''s1'' (snd (stand default_settings 6 ''s1''
            (snd (start_game default_settings id 5 ''s1'' 10 empty_db))))) = Some (1, 0, 0, 1)"
    by code_simp
  from total_games_is_sum [OF r, where p = "\<lparr>p_id = 1, session_id = ''s1'', balance = 100,
      total_games = 1, total_wins = 0, total_losses = 0, total_pushes = 1\<rparr>"] m
  have sum: "total_games \<lparr>p_id = 1, session_id = ''s1'', balance = 100, total_games = 1,
        total_wins = 0, total_losses = 0, total_pushes = 1\<rparr>
      = total_wins \<lparr>p_id = 1, session_id = ''s1'', balance = 100, total_games = 1,
          total_wins = 0, total_losses = 0, total_pushes = 1\<rparr>
        + total_losses \<lparr>p_id = 1, session_id = ''s1'', balance = 100, total_games = 1,
            total_wins = 0, total_losses = 0, total_pushes = 1\<rparr>
        + total_pushes \<lparr>p_id = 1, session_id = ''s1'', balance = 100, total_games = 1,
            total_wins = 0, total_losses = 0, total_pushes = 1\<rparr>"
    by blast
  from total_games_is_sum [OF r1, where sid = "''s1''" and now = 6
      and pl = "\<lparr>p_id = 1, session_id = ''s1'', balance = 90, total_games = 0,
        total_wins = 0, total_losses = 0, total_pushes = 0\<rparr>"] g
  have st: "\<exists>pl1. get_player ''s1'' (snd (stand default_settings 6 ''s1''
            (snd (start_game default_settings id 5 ''s1'' 10 empty_db)))) = Some pl1
        \<and> counted (fst (stand default_settings 6 ''s1''
            (snd (start_game default_settings id 5 ''s1'' 10 empty_db))))
           \<lparr>p_id = 1, session_id = ''s1'', balance = 90, total_games = 0, total_wins = 0,
            total_losses = 0, total_pushes = 0\<rparr> pl1"
    by blast
  show ?thesis
    using r m sum r1 g st c by blast
qed

section \<open>One open game per player\<close>

lemma one_active_commit_game:
  assumes "one_active d" and "get_active_game pid d = Some g" and "player_id g1 = pid"
  shows "one_active (commit_game pid g1 d)"
  unfolding one_active_def
proof
  fix pid'
  have g: "active pid g"
    using assms(2) find_Some_holds [of "active pid" "games d" g]
    by (simp add: get_active_game_def)
  show "length (filter (active pid') (games (commit_game pid g1 d))) \<le> 1"
  proof (cases "pid' = pid")
    case True
    from assms(2) obtain r where r: "filter (active pid) (games d) = g # r"
      using find_Some_filter [of "active pid" "games d" g] by (auto simp: get_active_game_def)
    have "length (filter (active pid) (games d)) \<le> 1"
      using assms(1) by (simp add: one_active_def)
    then show ?thesis
      using True r filter_replace_first [OF r, of g1]
      by (simp add: commit_game_def)
  next
    case False
    then have "\<not> active pid' g" "\<not> active pid' g1"
      using g assms(3) by (auto simp: active_def)
    then have "filter (active pid') (games (commit_game pid g1 d)) = filter (active pid') (games d)"
      using assms(2) filter_replace_first_other [of "active pid" "games d" g "active pid'" g1]
      by (simp add: commit_game_def get_active_game_def)
    then show ?thesis
      using assms(1) by (simp add: one_active_def)
  qed
qed

lemma one_active_append:
  assumes "one_active d" and "get_active_game pid d = None" and "player_id g1 = pid"
    and "games d' = games d @ [g1]"
  shows "one_active d'"
  unfolding one_active_def
proof
  fix pid'
  show "length (filter (active pid') (games d')) \<le> 1"
  proof (cases "pid' = pid")
    case True
    have "filter (active pid) (games d) = []"
      using assms(2) by (simp add: get_active_game_def find_None_filter)
    then show ?thesis
      using True assms(4) by simp
  next
    case False
    then have "\<not> active pid' g1"
      using assms(3) by (auto simp: active_def)
    then show ?thesis
      using assms(1,4) by (simp add: one_active_def)
  qed
qed

lemma one_active_games: "one_active d \<Longrightarrow> games d' = games d \<Longrightarrow> one_active d'"
  by (simp add: one_active_def)

lemma one_active_start:
  assumes "one_active d0"
  shows "one_active (snd (start_game st sh now sid bet d0))"
proof -
  obtain pl d where g: "get_or_create_player st sid d0 = (pl, d)"
    by (cases "get_or_create_player st sid d0")
  have ok: "one_active d"
    using get_or_create_player_found [OF g] assms one_active_games by blast
  from start_game_effect [OF g, of sh now bet] show ?thesis
  proof (elim disjE exE conjE)
    assume "snd (start_game st sh now sid bet d0) = d"
    with ok show ?thesis by simp
  next
    fix ph dh cards g1 pl2
    assume cn: "check_natural st now bet ph dh
        (new_game (next_id (map g_id (games d))) (p_id pl) bet ph dh cards)
        (pl\<lparr>balance := balance pl - bet\<rparr>) = Inr (g1, pl2)"
      and none: "get_active_game (p_id pl) d = None"
      and run: "start_game st sh now sid bet d0
        = (Inr g1, (commit_player pl2 d)\<lparr>games := games d @ [g1]\<rparr>)"
    have "player_id g1 = p_id pl"
      using check_natural_fields [OF cn] by (simp add: new_game_def)
    then show ?thesis
      using run one_active_append [OF ok none, of g1] by simp
  qed
qed

lemma one_active_hit:
  assumes "one_active d0"
  shows "one_active (snd (hit st now sid d0))"
proof -
  obtain pl d where g: "get_or_create_player st sid d0 = (pl, d)"
    by (cases "get_or_create_player st sid d0")
  have ok: "one_active d"
    using get_or_create_player_found [OF g] assms one_active_games by blast
  from hit_effect [OF g, of now] show ?thesis
  proof (elim disjE exE conjE)
    assume "snd (hit st now sid d0) = d"
    with ok show ?thesis by simp
  next
    fix gm dk ph g1 pl1
    assume act: "get_active_game (p_id pl) d = Some gm"
      and run: "hit st now sid d0 = (Inr g1, commit_game (p_id pl) g1 (commit_player pl1 d))"
      and g1: "g1 = gm\<lparr>player_hand := map to_dict (ph @ [last dk]),
                        deck_state := map to_dict (butlast dk),
                        player_score := calculate (ph @ [last dk])\<rparr>"
    have pid: "player_id g1 = p_id pl"
      using act find_Some_holds [of "active (p_id pl)" "games d" gm]
      by (simp add: g1 get_active_game_def active_def)
    have "one_active (commit_player pl1 d)"
      using ok by (rule one_active_games) (simp add: games_commit_player)
    then show ?thesis
      using run act pid one_active_commit_game [of "commit_player pl1 d" "p_id pl" gm g1]
      by (simp add: get_active_game_commit_player)
  next
    fix gm dk ph g1 pl1
    assume act: "get_active_game (p_id pl) d = Some gm"
      and run: "hit st now sid d0 = (Inr g1, commit_game (p_id pl) g1 (commit_player pl1 d))"
      and g1: "g1 = gm\<lparr>player_hand := map to_dict (ph @ [last dk]),
                        deck_state := map to_dict (butlast dk),
                        player_score := calculate (ph @ [last dk]),
                        status := PLAYER_BUST, message := ''Bust! You lose!'',
                        completed_at := Some now\<rparr>"
    have pid: "player_id g1 = p_id pl"
      using act find_Some_holds [of "active (p_id pl)" "games d" gm]
      by (simp add: g1 get_active_game_def active_def)
    have "one_active (commit_player pl1 d)"
      using ok by (rule one_active_games) (simp add: games_commit_player)
    then show ?thesis
      using run act pid one_active_commit_game [of "commit_player pl1 d" "p_id pl" gm g1]
      by (simp add: get_active_game_commit_player)
  qed
qed

lemma one_active_stand:
  assumes "one_active d0"
  shows "one_active (snd (stand st now sid d0))"
proof -
  obtain pl d where g: "get_or_create_player st sid d0 = (pl, d)"
    by (cases "get_or_create_player st sid d0")
  have ok: "one_active d"
    using get_or_create_player_found [OF g] assms one_active_games by blast
  from stand_effect [OF g, of now] show ?thesis
  proof (elim disjE exE conjE)
    assume "snd (stand st now sid d0) = d"
    with ok show ?thesis by simp
  next
    fix gm ph dh dk h' c' s' g2 pl2
    assume act: "get_active_game (p_id pl) d = Some gm"
      and res: "resolve (player_score gm)
          (gm\<lparr>dealer_hand := map to_dict h', deck_state := map to_dict c',
               dealer_score := s', completed_at := Some now\<rparr>)
          (pl\<lparr>total_games := total_games pl + 1\<rparr>) = (g2, pl2)"
      and run: "stand st now sid d0 = (Inr g2, commit_game (p_id pl) g2 (commit_player pl2 d))"
    have pid: "player_id g2 = p_id pl"
      using act find_Some_holds [of "active (p_id pl)" "games d" gm] resolve_fields [OF res]
      by (simp add: get_active_game_def active_def)
    have "one_active (commit_player pl2 d)"
      using ok by (rule one_active_games) (simp add: games_commit_player)
    then show ?thesis
      using run act pid one_active_commit_game [of "commit_player pl2 d" "p_id pl" gm g2]
      by (simp add: get_active_game_commit_player)
  qed
qed

lemma one_active_get_or_create:
  assumes "one_active d0"
  shows "one_active (snd (get_or_create_player st sid d0))"
proof -
  obtain pl d where g: "get_or_create_player st sid d0 = (pl, d)"
    by (cases "get_or_create_player st sid d0")
  have "games d = games d0"
    using get_or_create_player_found [OF g] by simp
  with assms have "one_active d"
    by (rule one_active_games)
  with g show ?thesis by simp
qed

lemma one_active_reset:
  assumes "one_active d0"
  shows "one_active (snd (reset_player st sid d0))"
proof -
  obtain pl d where g: "get_or_create_player st sid d0 = (pl, d)"
    by (cases "get_or_create_player st sid d0")
  have "games d = games d0"
    using get_or_create_player_found [OF g] by simp
  then have "games (snd (reset_player st sid d0)) = games d0"
    using g by (simp add: reset_player_def Let_def games_commit_player)
  with assms show ?thesis
    by (rule one_active_games)
qed

lemma reachable_one_active: "reachable st d \<Longrightarrow> one_active d"
proof (induction rule: reachable.induct)
  case r_empty
  show ?case by (simp add: empty_db_def one_active_def)
next
  case (r_player d sid)
  from r_player.IH show ?case by (rule one_active_get_or_create)
next
  case (r_start d shuffle now sid bet)
  from r_start.IH show ?case by (rule one_active_start)
next
  case (r_hit d now sid)
  from r_hit.IH show ?case by (rule one_active_hit)
next
  case (r_stand d now sid)
  from r_stand.IH show ?case by (rule one_active_stand)
next
  case (r_reset d sid)
  from r_reset.IH show ?case by (rule one_active_reset)
qed

lemma hit_length_games: "length (games (snd (hit st now sid d0))) = length (games d0)"
proof -
  obtain pl d where g: "get_or_create_player st sid d0 = (pl, d)"
    by (cases "get_or_create_player st sid d0")
  have "games d = games d0"
    using get_or_create_player_found [OF g] by simp
  then show ?thesis
    using hit_effect [OF g, of now]
    by (auto simp: commit_game_def length_replace_first games_commit_player)
qed

lemma stand_length_games: "length (games (snd (stand st now sid d0))) = length (games d0)"
proof -
  obtain pl d where g: "get_or_create_player st sid d0 = (pl, d)"
    by (cases "get_or_create_player st sid d0")
  have "games d = games d0"
    using get_or_create_player_found [OF g] by simp
  then show ?thesis
    using stand_effect [OF g, of now]
    by (auto simp: commit_game_def length_replace_first games_commit_player)
qed

lemma start_game_opens:
  assumes "get_or_create_player st sid d0 = (pl, d)"
    and "start_game st sh now sid bet d0 = (Inr g1, d')"
    and "status g1 = IN_PROGRESS"
  shows "get_player sid d' = Some (pl\<lparr>balance := balance pl - bet\<rparr>)
    \<and> filter (active (p_id pl)) (games d') = [g1]
    \<and> bet_amount g1 = bet \<and> payout g1 = 0
    \<and> (\<exists>ph dh cards. player_hand g1 = map to_dict ph \<and> dealer_hand g1 = map to_dict dh
          \<and> deck_state g1 = map to_dict cards)
    \<and> min_bet st \<le> bet \<and> bet \<le> max_bet st \<and> bet \<le> balance pl"
proof -
  have found: "get_player sid d = Some pl" "session_id pl = sid"
    using get_or_create_player_found [OF assms(1)] by simp_all
  from start_game_effect [OF assms(1), of sh now bet] assms(2)
  obtain ph dh cards pl2 where ok: "min_bet st \<le> bet" "bet \<le> max_bet st" "bet \<le> balance pl"
    and none: "get_active_game (p_id pl) d = None"
    and cn: "check_natural st now bet ph dh
        (new_game (next_id (map g_id (games d))) (p_id pl) bet ph dh cards)
        (pl\<lparr>balance := balance pl - bet\<rparr>) = Inr (g1, pl2)"
    and d': "d' = (commit_player pl2 d)\<lparr>games := games d @ [g1]\<rparr>"
    by auto
  from check_natural_cases [OF cn] assms(3)
  have same: "g1 = new_game (next_id (map g_id (games d))) (p_id pl) bet ph dh cards"
    "pl2 = pl\<lparr>balance := balance pl - bet\<rparr>"
    by auto
  have act: "active (p_id pl) g1"
    by (simp add: same(1) new_game_def active_def)
  have "filter (active (p_id pl)) (games d) = []"
    using none by (simp add: get_active_game_def find_None_filter)
  then have f: "filter (active (p_id pl)) (games d') = [g1]"
    using act by (simp add: d')
  have "get_player sid (commit_player pl2 d) = Some pl2"
    using get_player_commit [OF found(1), of pl2] found(2) by (simp add: same(2))
  then have p: "get_player sid d' = Some (pl\<lparr>balance := balance pl - bet\<rparr>)"
    by (simp add: d' same(2) get_player_def)
  have h: "\<exists>ph dh cards. player_hand g1 = map to_dict ph \<and> dealer_hand g1 = map to_dict dh
          \<and> deck_state g1 = map to_dict cards"
    unfolding same(1) new_game_def by auto
  have b: "bet_amount g1 = bet \<and> payout g1 = 0"
    by (simp add: same(1) new_game_def)
  show ?thesis
    using p f h b ok by blast
qed

lemma find_filter_Cons: "filter P xs = x # r \<Longrightarrow> find P xs = Some x"
  by (induction xs) (auto split: if_splits)

lemma get_active_game_filter:
  "filter (active pid) (games d) = g # r \<Longrightarrow> get_active_game pid d = Some g"
  by (simp add: get_active_game_def find_filter_Cons)

lemma second_start_rejected:
  assumes "get_or_create_player st sid d0 = (pl, d)"
    and "start_game st sh now sid bet d0 = (Inr g1, d')"
    and "status g1 = IN_PROGRESS"
  shows "start_game st sh2 now2 sid bet2 d' =
      (Inl (Rejected
         (if bet2 < min_bet st then ''Minimum bet is $'' @ str (min_bet st)
          else if bet2 > max_bet st then ''Maximum bet is $'' @ str (max_bet st)
          else if bet2 > balance pl - bet then ''Insufficient balance''
          else ''Game already in progress'')), d')"
proof -
  from start_game_opens [OF assms]
  have p: "get_player sid d' = Some (pl\<lparr>balance := balance pl - bet\<rparr>)"
    and f: "filter (active (p_id pl)) (games d') = [g1]"
    by simp_all
  have g: "get_or_create_player st sid d' = (pl\<lparr>balance := balance pl - bet\<rparr>, d')"
    using p by (rule get_or_create_existing)
  have a: "get_active_game (p_id (pl\<lparr>balance := balance pl - bet\<rparr>)) d' \<noteq> None"
    using get_active_game_filter [OF f] by simp
  show ?thesis
    using start_game_rejection [OF g, of bet2 sh2 now2] a by simp
qed

text \<open>
  C7. In every reachable state no player has more than one game IN_PROGRESS. \<^verbatim>\<open>hit\<close>
  and \<^verbatim>\<open>stand\<close> never add a game. While a player has a game in progress every
  \<^verbatim>\<open>start_game\<close> for that player is rejected and changes nothing; in particular a
  second start right after one that left its game IN_PROGRESS. The bet checks run
  first, so the message is "Game already in progress" when the new bet is within the
  limits and within the balance left after the first bet, and the message of the failing
  bet check otherwise.
\<close>

theorem one_game_in_progress:
  assumes "reachable st d"
  shows "length (filter (active pid) (games d)) \<le> 1
    \<and> length (games (snd (hit st now sid d))) = length (games d)
    \<and> length (games (snd (stand st now sid d))) = length (games d)
    \<and> (get_active_game (p_id (fst (get_or_create_player st sid d))) d \<noteq> None \<longrightarrow>
          start_game st shuffle now sid bet d =
            (Inl (Rejected
               (if bet < min_bet st then ''Minimum bet is $'' @ str (min_bet st)
                else if bet > max_bet st then ''Maximum bet is $'' @ str (max_bet st)
                else if bet > balance (fst (get_or_create_player st sid d))
                  then ''Insufficient balance''
                else ''Game already in progress'')), snd (get_or_create_player st sid d)))
    \<and> (\<forall>g. start_game st shuffle now sid bet d = (Inr g, d') \<and> status g = IN_PROGRESS \<longrightarrow>
          start_game st shuffle2 now2 sid bet2 d' =
            (Inl (Rejected
               (if bet2 < min_bet st then ''Minimum bet is $'' @ str (min_bet st)
                else if bet2 > max_bet st then ''Maximum bet is $'' @ str (max_bet st)
                else if bet2 > balance (fst (get_or_create_player st sid d)) - bet
                  then ''Insufficient balance''
                else ''Game already in progress'')), d'))"
proof -
  obtain pl d1 where goc: "get_or_create_player st sid d = (pl, d1)"
    by (cases "get_or_create_player st sid d")
  have "length (filter (active pid) (games d)) \<le> 1"
    using reachable_one_active [OF assms] by (simp add: one_active_def)
  moreover have "get_active_game (p_id (fst (get_or_create_player st sid d))) d \<noteq> None \<longrightarrow>
          start_game st shuffle now sid bet d =
            (Inl (Rejected
               (if bet < min_bet st then ''Minimum bet is $'' @ str (min_bet st)
                else if bet > max_bet st then ''Maximum bet is $'' @ str (max_bet st)
                else if bet > balance (fst (get_or_create_player st sid d))
                  then ''Insufficient balance''
                else ''Game already in progress'')), snd (get_or_create_player st sid d))"
    using start_game_rejection [OF goc, of bet shuffle now] goc by simp
  moreover have "\<forall>g. start_game st shuffle now sid bet d = (Inr g, d') \<and> status g = IN_PROGRESS \<longrightarrow>
          start_game st shuffle2 now2 sid bet2 d' =
            (Inl (Rejected
               (if bet2 < min_bet st then ''Minimum bet is $'' @ str (min_bet st)
                else if bet2 > max_bet st then ''Maximum bet is $'' @ str (max_bet st)
                else if bet2 > balance (fst (get_or_create_player st sid d)) - bet
                  then ''Insufficient balance''
                else ''Game already in progress'')), d')"
  proof (intro allI impI, elim conjE)
    fix g
    assume run: "start_game st shuffle now sid bet d = (Inr g, d')"
      and st: "status g = IN_PROGRESS"
    show "start_game st shuffle2 now2 sid bet2 d' =
            (Inl (Rejected
               (if bet2 < min_bet st then ''Minimum bet is $'' @ str (min_bet st)
                else if bet2 > max_bet st then ''Maximum bet is $'' @ str (max_bet st)
                else if bet2 > balance (fst (get_or_create_player st sid d)) - bet
                  then ''Insufficient balance''
                else ''Game already in progress'')), d')"
      using second_start_rejected [OF goc run st, of shuffle2 now2 bet2] goc by simp
  qed
  ultimately show ?thesis
    by (simp add: hit_length_games stand_length_games)
qed

text \<open>
  A bet of 60 on the unshuffled deck leaves a game IN_PROGRESS and a balance of 40; a
  second start with a bet of 10 is then refused for the open game.
\<close>

theorem one_game_in_progress_witness:
  "reachable default_settings empty_db
   \<and> reachable default_settings (snd (start_game default_settings id 1 ''s1'' 60 empty_db))
   \<and> map_sum id status (fst (start_game default_settings id 1 ''s1'' 60 empty_db))
       = Inr IN_PROGRESS
   \<and> length (filter (active 1)
        (games (snd (start_game default_settings id 1 ''s1'' 60 empty_db)))) \<le> 1
   \<and> length (games (snd (hit default_settings 3 ''s1''
        (snd (start_game default_settings id 1 ''s1'' 60 empty_db)))))
       = length (games (snd (start_game default_settings id 1 ''s1'' 60 empty_db)))
   \<and> start_game default_settings id 2 ''s1'' 10
        (snd (start_game default_settings id 1 ''s1'' 60 empty_db))
       = (Inl (Rejected ''Game already in progress''),
          snd (start_game default_settings id 1 ''s1'' 60 empty_db))"
proof -
  have r0: "reachable default_settings empty_db"
    by (rule reachable.r_empty)
  have r1: "reachable default_settings
      (snd (start_game default_settings id 1 ''s1'' 60 empty_db))"
    by (intro reachable.r_start reachable.r_empty)
  have s: "map_sum id status (fst (start_game default_settings id 1 ''s1'' 60 empty_db))
       = Inr IN_PROGRESS"
    by code_simp
  then obtain g where g: "fst (start_game default_settings id 1 ''s1'' 60 empty_db) = Inr g"
    "status g = IN_PROGRESS"
    by (cases "fst (start_game default_settings id 1 ''s1'' 60 empty_db)") auto
  have run: "start_game default_settings id 1 ''s1'' 60 empty_db
      = (Inr g, snd (start_game default_settings id 1 ''s1'' 60 empty_db))"
    using g(1) by (simp add: prod_eq_iff)
  have b: "balance (fst (get_or_create_player default_settings ''s1'' empty_db)) = 100"
    by (simp add: get_or_create_player_def get_player_def empty_db_def default_settings_def
        Let_def)
  have lim: "min_bet default_settings = 1" "max_bet default_settings = 1000"
    by (simp_all add: default_settings_def)
  from one_game_in_progress [OF r0, where shuffle = id and now = 1 and sid = "''s1''"
        and bet = 60 and d' = "snd (start_game default_settings id 1 ''s1'' 60 empty_db)"
        and ?shuffle2.0 = id and ?now2.0 = 2 and ?bet2.0 = 10]
  have "\<forall>g. start_game default_settings id 1 ''s1'' 60 empty_db
            = (Inr g, snd (start_game default_settings id 1 ''s1'' 60 empty_db))
          \<and> status g = IN_PROGRESS \<longrightarrow>
        start_game default_settings id 2 ''s1'' 10
          (snd (start_game default_settings id 1 ''s1'' 60 empty_db)) =
            (Inl (Rejected
               (if 10 < min_bet default_settings
                  then ''Minimum bet is $'' @ str (min_bet default_settings)
                else if 10 > max_bet default_settings
                  then ''Maximum bet is $'' @ str (max_bet default_settings)
                else if 10 > balance (fst (get_or_create_player default_settings ''s1''
                    empty_db)) - 60
                  then ''Insufficient balance''
                else ''Game already in progress'')),
             snd (start_game default_settings id 1 ''s1'' 60 empty_db))"
    by blast
  with run g(2) have "start_game default_settings id 2 ''s1'' 10
          (snd (start_game default_settings id 1 ''s1'' 60 empty_db)) =
            (Inl (Rejected
               (if 10 < min_bet default_settings
                  then ''Minimum bet is $'' @ str (min_bet default_settings)
                else if 10 > max_bet default_settings
                  then ''Maximum bet is $'' @ str (max_bet default_settings)
                else if 10 > balance (fst (get_or_create_player default_settings ''s1''
                    empty_db)) - 60
                  then ''Insufficient balance''
                else ''Game already in progress'')),
             snd (start_game default_settings id 1 ''s1'' 60 empty_db))"
    by blast
  then have two: "start_game default_settings id 2 ''s1'' 10
        (snd (start_game default_settings id 1 ''s1'' 60 empty_db))
       = (Inl (Rejected ''Game already in progress''),
          snd (start_game default_settings id 1 ''s1'' 60 empty_db))"
    by (simp only: lim b) simp
  from one_game_in_progress [OF r1, where pid = 1 and now = 3 and sid = "''s1''"]
  have inv: "length (filter (active 1)
        (games (snd (start_game default_settings id 1 ''s1'' 60 empty_db)))) \<le> 1"
    and len: "length (games (snd (hit default_settings 3 ''s1''
        (snd (start_game default_settings id 1 ''s1'' 60 empty_db)))))
       = length (games (snd (start_game default_settings id 1 ''s1'' 60 empty_db)))"
    by blast+
  show ?thesis
    using r0 r1 s two inv len by blast
qed

text \<open>
  The message depends on the bet: with the second bet again 60, which exceeds the 40
  left, the second start is refused with "Insufficient balance".
\<close>

theorem second_start_other_message:
  "map_sum id status (fst (start_game default_settings id 1 ''s1'' 60 empty_db))
     = Inr IN_PROGRESS
   \<and> fst (start_game default_settings id 2 ''s1'' 60
        (snd (start_game default_settings id 1 ''s1'' 60 empty_db)))
       = Inl (Rejected ''Insufficient balance'')"
proof -
  have a: "map_sum id status (fst (start_game default_settings id 1 ''s1'' 60 empty_db))
     = Inr IN_PROGRESS"
    by code_simp
  have b: "fst (start_game default_settings id 2 ''s1'' 60
        (snd (start_game default_settings id 1 ''s1'' 60 empty_db)))
       = Inl (Rejected ''Insufficient balance'')"
    by code_simp
  show ?thesis
    using a b by simp
qed

section \<open>Settling the bet\<close>







section \<open>Stored scores\<close>

lemma scores_ok_commit_game:
  "list_all scores_ok (games d) \<Longrightarrow> scores_ok g \<Longrightarrow> list_all scores_ok (games (commit_game pid g d))"
  using set_replace_first [of "active pid" g "games d"]
  by (auto simp: commit_game_def list_all_iff)

lemma scores_ok_new_game: "scores_ok (new_game gid pid bet ph dh cards)"
  by (simp add: scores_ok_def new_game_def from_dicts_to_dict)

lemma scores_ok_fields:
  "scores_ok g \<Longrightarrow> player_hand g1 = player_hand g \<Longrightarrow> dealer_hand g1 = dealer_hand g \<Longrightarrow>
     player_score g1 = player_score g \<Longrightarrow> dealer_score g1 = dealer_score g \<Longrightarrow> scores_ok g1"
  by (simp add: scores_ok_def split: sum.splits)

lemma scores_ok_start:
  assumes "list_all scores_ok (games d0)"
  shows "list_all scores_ok (games (snd (start_game st sh now sid bet d0)))"
proof -
  obtain pl d where g: "get_or_create_player st sid d0 = (pl, d)"
    by (cases "get_or_create_player st sid d0")
  have ok: "list_all scores_ok (games d)"
    using get_or_create_player_found [OF g] assms by simp
  from start_game_effect [OF g, of sh now bet] show ?thesis
  proof (elim disjE exE conjE)
    assume "snd (start_game st sh now sid bet d0) = d"
    with ok show ?thesis by simp
  next
    fix ph dh cards g1 pl2
    assume cn: "check_natural st now bet ph dh
        (new_game (next_id (map g_id (games d))) (p_id pl) bet ph dh cards)
        (pl\<lparr>balance := balance pl - bet\<rparr>) = Inr (g1, pl2)"
      and run: "start_game st sh now sid bet d0
        = (Inr g1, (commit_player pl2 d)\<lparr>games := games d @ [g1]\<rparr>)"
    have "scores_ok g1"
      using check_natural_fields [OF cn]
      by (intro scores_ok_fields [OF scores_ok_new_game]) simp_all
    then show ?thesis
      using run ok by simp
  qed
qed

lemma scores_ok_hit:
  assumes "list_all scores_ok (games d0)"
  shows "list_all scores_ok (games (snd (hit st now sid d0)))"
proof -
  obtain pl d where g: "get_or_create_player st sid d0 = (pl, d)"
    by (cases "get_or_create_player st sid d0")
  have ok: "list_all scores_ok (games d)"
    using get_or_create_player_found [OF g] assms by simp
  from hit_effect [OF g, of now] show ?thesis
  proof (elim disjE exE conjE)
    assume "snd (hit st now sid d0) = d"
    with ok show ?thesis by simp
  next
    fix gm dk ph g1 pl1
    assume act: "get_active_game (p_id pl) d = Some gm"
      and run: "hit st now sid d0 = (Inr g1, commit_game (p_id pl) g1 (commit_player pl1 d))"
      and g1: "g1 = gm\<lparr>player_hand := map to_dict (ph @ [last dk]),
                        deck_state := map to_dict (butlast dk),
                        player_score := calculate (ph @ [last dk])\<rparr>"
    have "gm \<in> set (games d)"
      using act find_Some_holds [of "active (p_id pl)" "games d" gm]
      by (simp add: get_active_game_def)
    with ok have "scores_ok gm"
      by (simp add: list_all_iff)
    then have "scores_ok g1"
      using from_dicts_to_dict [of "ph @ [last dk]"]
      by (simp add: g1 scores_ok_def split: sum.splits)
    then show ?thesis
      using run scores_ok_commit_game [of "commit_player pl1 d" g1 "p_id pl"] ok
      by (simp add: games_commit_player)
  next
    fix gm dk ph g1 pl1
    assume act: "get_active_game (p_id pl) d = Some gm"
      and run: "hit st now sid d0 = (Inr g1, commit_game (p_id pl) g1 (commit_player pl1 d))"
      and g1: "g1 = gm\<lparr>player_hand := map to_dict (ph @ [last dk]),
                        deck_state := map to_dict (butlast dk),
                        player_score := calculate (ph @ [last dk]),
                        status := PLAYER_BUST, message := ''Bust! You lose!'',
                        completed_at := Some now\<rparr>"
    have "gm \<in> set (games d)"
      using act find_Some_holds [of "active (p_id pl)" "games d" gm]
      by (simp add: get_active_game_def)
    with ok have "scores_ok gm"
      by (simp add: list_all_iff)
    then have "scores_ok g1"
      using from_dicts_to_dict [of "ph @ [last dk]"]
      by (simp add: g1 scores_ok_def split: sum.splits)
    then show ?thesis
      using run scores_ok_commit_game [of "commit_player pl1 d" g1 "p_id pl"] ok
      by (simp add: games_commit_player)
  qed
qed

lemma scores_ok_stand:
  assumes "list_all scores_ok (games d0)"
  shows "list_all scores_ok (games (snd (stand st now sid d0)))"
proof -
  obtain pl d where g: "get_or_create_player st sid d0 = (pl, d)"
    by (cases "get_or_create_player st sid d0")
  have ok: "list_all scores_ok (games d)"
    using get_or_create_player_found [OF g] assms by simp
  from stand_effect [OF g, of now] show ?thesis
  proof (elim disjE exE conjE)
    assume "snd (stand st now sid d0) = d"
    with ok show ?thesis by simp
  next
    fix gm ph dh dk h' c' s' g2 pl2
    assume act: "get_active_game (p_id pl) d = Some gm"
      and dh: "from_dicts (dealer_hand gm) = Inr dh"
      and play: "dealer_play (dealer_stand_threshold st) dh dk (calculate dh) = (h', c', s')"
      and res: "resolve (player_score gm)
          (gm\<lparr>dealer_hand := map to_dict h', deck_state := map to_dict c',
               dealer_score := s', completed_at := Some now\<rparr>)
          (pl\<lparr>total_games := total_games pl + 1\<rparr>) = (g2, pl2)"
      and run: "stand st now sid d0 = (Inr g2, commit_game (p_id pl) g2 (commit_player pl2 d))"
    have "gm \<in> set (games d)"
      using act find_Some_holds [of "active (p_id pl)" "games d" gm]
      by (simp add: get_active_game_def)
    with ok have gm: "scores_ok gm"
      by (simp add: list_all_iff)
    have s': "s' = calculate h'"
      using dealer_play_result [OF play refl] by blast
    have "scores_ok (gm\<lparr>dealer_hand := map to_dict h', deck_state := map to_dict c',
               dealer_score := s', completed_at := Some now\<rparr>)"
      using gm s' by (simp add: scores_ok_def from_dicts_to_dict split: sum.splits)
    then have "scores_ok g2"
      by (rule scores_ok_fields) (simp_all add: resolve_fields [OF res])
    then show ?thesis
      using run scores_ok_commit_game [of "commit_player pl2 d" g2 "p_id pl"] ok
      by (simp add: games_commit_player)
  qed
qed

lemma reachable_scores_ok: "reachable st d \<Longrightarrow> list_all scores_ok (games d)"
proof (induction rule: reachable.induct)
  case r_empty
  show ?case by (simp add: empty_db_def)
next
  case (r_player d sid)
  obtain pl d1 where g: "get_or_create_player st sid d = (pl, d1)"
    by (cases "get_or_create_player st sid d")
  with r_player.IH get_or_create_player_found [OF g] show ?case by simp
next
  case (r_start d shuffle now sid bet)
  from r_start.IH show ?case by (rule scores_ok_start)
next
  case (r_hit d now sid)
  from r_hit.IH show ?case by (rule scores_ok_hit)
next
  case (r_stand d now sid)
  from r_stand.IH show ?case by (rule scores_ok_stand)
next
  case (r_reset d sid)
  obtain pl d1 where g: "get_or_create_player st sid d = (pl, d1)"
    by (cases "get_or_create_player st sid d")
  with r_reset.IH get_or_create_player_found [OF g] show ?case
    by (simp add: reset_player_def Let_def games_commit_player)
qed

lemma reachable_dealer_score:
  assumes "reachable st d" and "g \<in> set (games d)"
  shows "\<exists>h. from_dicts (dealer_hand g) = Inr h \<and> dealer_score g = calculate h"
proof -
  have "scores_ok g"
    using reachable_scores_ok [OF assms(1)] assms(2) by (simp add: list_all_iff)
  then show ?thesis
    by (cases "from_dicts (dealer_hand g)") (simp_all add: scores_ok_def)
qed

section \<open>The client's view\<close>

text \<open>
  C8. While a game is IN_PROGRESS the view shows the dealer's first card followed by the
  hidden card (suit "?", rank "?", value 0) and, as the dealer's score, the value of the
  first card alone. The view does not depend on the rest of the dealer's hand (nor on the
  stored dealer score or the deck): two such games that differ only there have the same
  view. Once the status is terminal the view shows the whole dealer hand and the stored
  dealer score; in every reachable state the stored dealer score of a game is the score
  of its stored dealer hand.
\<close>

theorem get_game_state_hole_card:
  "(status g = IN_PROGRESS \<longrightarrow> dealer_hand g = c # r \<longrightarrow>
      get_game_state g pl =
        Inr \<lparr>playerHand = player_hand g,
             dealerHand = [c, \<lparr>d_suit = ''?'', d_rank = ''?'', d_value = 0\<rparr>],
             playerScore = player_score g, dealerScore = d_value c,
             view_balance = balance pl, view_bet = bet_amount g, gameOver = False,
             view_message = message g\<rparr>
      \<and> get_game_state (g\<lparr>dealer_hand := c # r', dealer_score := s', deck_state := k'\<rparr>) pl
          = get_game_state g pl)
   \<and> (status g \<noteq> IN_PROGRESS \<longrightarrow>
      get_game_state g pl =
        Inr \<lparr>playerHand = player_hand g, dealerHand = dealer_hand g,
             playerScore = player_score g, dealerScore = dealer_score g,
             view_balance = balance pl, view_bet = bet_amount g, gameOver = True,
             view_message = message g\<rparr>)
   \<and> (reachable st d \<and> g \<in> set (games d) \<longrightarrow>
        (\<exists>h. from_dicts (dealer_hand g) = Inr h \<and> dealer_score g = calculate h))"
  using reachable_dealer_score [of st d g]
  by (simp add: get_game_state_def hidden_card_def)

theorem get_game_state_hole_card_witness:
  "status demo_game = IN_PROGRESS
   \<and> dealer_hand demo_game = [to_dict (Card DIAMONDS NINE), to_dict (Card CLUBS SIX)]
   \<and> get_game_state demo_game demo_player =
        Inr \<lparr>playerHand = map to_dict [Card SPADES KING, Card HEARTS SEVEN],
             dealerHand = [to_dict (Card DIAMONDS NINE),
                           \<lparr>d_suit = ''?'', d_rank = ''?'', d_value = 0\<rparr>],
             playerScore = 17, dealerScore = 9,
             view_balance = 37, view_bet = 10, gameOver = False, view_message = []\<rparr>
   \<and> get_game_state
        (demo_game\<lparr>dealer_hand := [to_dict (Card DIAMONDS NINE), to_dict (Card HEARTS ACE)],
                    dealer_score := 20, deck_state := []\<rparr>) demo_player
       = get_game_state demo_game demo_player
   \<and> status (demo_game\<lparr>status := DEALER_WIN\<rparr>) \<noteq> IN_PROGRESS
   \<and> get_game_state (demo_game\<lparr>status := DEALER_WIN\<rparr>) demo_player =
        Inr \<lparr>playerHand = map to_dict [Card SPADES KING, Card HEARTS SEVEN],
             dealerHand = map to_dict [Card DIAMONDS NINE, Card CLUBS SIX],
             playerScore = 17, dealerScore = 15,
             view_balance = 37, view_bet = 10, gameOver = True, view_message = []\<rparr>
   \<and> reachable default_settings
        (snd (stand default_settings 6 ''s1''
           (snd (start_game default_settings id 5 ''s1'' 10 empty_db))))
   \<and> hd (games (snd (stand default_settings 6 ''s1''
           (snd (start_game default_settings id 5 ''s1'' 10 empty_db)))))
       \<in> set (games (snd (stand default_settings 6 ''s1''
           (snd (start_game default_settings id 5 ''s1'' 10 empty_db)))))
   \<and> (\<exists>h. from_dicts (dealer_hand (hd (games (snd (stand default_settings 6 ''s1''
           (snd (start_game default_settings id 5 ''s1'' 10 empty_db))))))) = Inr h
        \<and> dealer_score (hd (games (snd (stand default_settings 6 ''s1''
           (snd (start_game default_settings id 5 ''s1'' 10 empty_db)))))) = calculate h)
   \<and> dealer_score (hd (games (snd (stand default_settings 6 ''s1''
           (snd (start_game default_settings id 5 ''s1'' 10 empty_db)))))) = 20"
proof -
  have r: "reachable default_settings
        (snd (stand default_settings 6 ''s1''
           (snd (start_game default_settings id 5 ''s1'' 10 empty_db))))"
    by (intro reachable.r_stand reachable.r_start reachable.r_empty)
  have "length (games (snd (stand default_settings 6 ''s1''
           (snd (start_game default_settings id 5 ''s1'' 10 empty_db))))) = 1"
    by code_simp
  then have m: "hd (games (snd (stand default_settings 6 ''s1''
           (snd (start_game default_settings id 5 ''s1'' 10 empty_db)))))
       \<in> set (games (snd (stand default_settings 6 ''s1''
           (snd (start_game default_settings id 5 ''s1'' 10 empty_db)))))"
    by (cases "games (snd (stand default_settings 6 ''s1''
           (snd (start_game default_settings id 5 ''s1'' 10 empty_db))))") simp_all
  have v: "dealer_score (hd (games (snd (stand default_settings 6 ''s1''
           (snd (start_game default_settings id 5 ''s1'' 10 empty_db)))))) = 20"
    by code_simp
  have e: "\<exists>h. from_dicts (dealer_hand (hd (games (snd (stand default_settings 6 ''s1''
           (snd (start_game default_settings id 5 ''s1'' 10 empty_db))))))) = Inr h
        \<and> dealer_score (hd (games (snd (stand default_settings 6 ''s1''
           (snd (start_game default_settings id 5 ''s1'' 10 empty_db)))))) = calculate h"
    using r m get_game_state_hole_card [where st = default_settings
        and d = "snd (stand default_settings 6 ''s1''
           (snd (start_game default_settings id 5 ''s1'' 10 empty_db)))"
        and g = "hd (games (snd (stand default_settings 6 ''s1''
           (snd (start_game default_settings id 5 ''s1'' 10 empty_db)))))"]
    by blast
  have views: "status demo_game = IN_PROGRESS
   \<and> dealer_hand demo_game = [to_dict (Card DIAMONDS NINE), to_dict (Card CLUBS SIX)]
   \<and> get_game_state demo_game demo_player =
        Inr \<lparr>playerHand = map to_dict [Card SPADES KING, Card HEARTS SEVEN],
             dealerHand = [to_dict (Card DIAMONDS NINE),
                           \<lparr>d_suit = ''?'', d_rank = ''?'', d_value = 0\<rparr>],
             playerScore = 17, dealerScore = 9,
             view_balance = 37, view_bet = 10, gameOver = False, view_message = []\<rparr>
   \<and> get_game_state
        (demo_game\<lparr>dealer_hand := [to_dict (Card DIAMONDS NINE), to_dict (Card HEARTS ACE)],
                    dealer_score := 20, deck_state := []\<rparr>) demo_player
       = get_game_state demo_game demo_player
   \<and> status (demo_game\<lparr>status := DEALER_WIN\<rparr>) \<noteq> IN_PROGRESS
   \<and> get_game_state (demo_game\<lparr>status := DEALER_WIN\<rparr>) demo_player =
        Inr \<lparr>playerHand = map to_dict [Card SPADES KING, Card HEARTS SEVEN],
             dealerHand = map to_dict [Card DIAMONDS NINE, Card CLUBS SIX],
             playerScore = 17, dealerScore = 15,
             view_balance = 37, view_bet = 10, gameOver = True, view_message = []\<rparr>"
    using get_game_state_hole_card [where g = demo_game and c = "to_dict (Card DIAMONDS NINE)"
      and r = "[to_dict (Card CLUBS SIX)]" and pl = demo_player
      and r' = "[to_dict (Card HEARTS ACE)]" and s' = 20 and k' = "[]"]
    get_game_state_hole_card [where g = "demo_game\<lparr>status := DEALER_WIN\<rparr>"
      and pl = demo_player]
    by (simp add: demo_game_def demo_player_def to_dict_def value_def)
  show ?thesis
    using views r m e v by blast
qed

end
